theory Spec2Isabelle
  imports Main "HOL-Library.Sublist"
begin

section \<open>Strings as the engine uses them\<close>

text \<open>
  The engine of \<^verbatim>\<open>symbol-context-snippets.ts\<close> builds its cache keys with template
  literals and takes them apart again with \<^verbatim>\<open>split('::')\<close>. Strings are lists of
  characters; line and column numbers are natural numbers, printed in decimal.
\<close>

definition digit_char :: "nat \<Rightarrow> char" where
  "digit_char d = char_of (48 + d)"

function show_nat :: "nat \<Rightarrow> string" where
  "show_nat n = (if n < 10 then [digit_char n] else show_nat (n div 10) @ [digit_char (n mod 10)])"
  by pat_completeness auto
termination
  by (relation "measure id") auto

declare show_nat.simps [simp del]

text \<open>\<^verbatim>\<open>xs.join(sep)\<close> on a list of strings.\<close>

fun join :: "string \<Rightarrow> string list \<Rightarrow> string" where
  "join sep [] = []"
| "join sep [x] = x"
| "join sep (x # y # ys) = x @ sep @ join sep (y # ys)"

text \<open>
  \<^verbatim>\<open>s.split(sep)\<close> for a non-empty separator: the occurrences of the separator are
  found from the left and do not overlap; the pieces between them are returned, so the
  result is never empty. \<open>acc\<close> is the piece being read.
\<close>

function split_from :: "string \<Rightarrow> string \<Rightarrow> string \<Rightarrow> string list" where
  "split_from sep acc [] = [acc]"
| "split_from sep acc (c # cs) =
     (if sep \<noteq> [] \<and> prefix sep (c # cs)
      then acc # split_from sep [] (drop (length sep - 1) cs)
      else split_from sep (acc @ [c]) cs)"
  by pat_completeness auto
termination
  by (relation "measure (\<lambda>(sep, acc, s). length s)") auto

definition split :: "string \<Rightarrow> string \<Rightarrow> string list" where
  "split sep s = split_from sep [] s"

text \<open>
  The destructuring \<^verbatim>\<open>const [a, b] = path.split('::')\<close>: the first piece always
  exists, the second is \<^verbatim>\<open>undefined\<close> when the path holds no separator, and further
  pieces are dropped.
\<close>

definition splitPath :: "string \<Rightarrow> string \<times> string option" where
  "splitPath path =
     (case split ''::'' path of
        [] \<Rightarrow> ([], None)
      | [a] \<Rightarrow> (a, None)
      | a # b # _ \<Rightarrow> (a, Some b))"

text \<open>\<^verbatim>\<open>s.trim()\<close>, on the white space that fits a character of this model.\<close>

definition isWhiteSpace :: "char \<Rightarrow> bool" where
  "isWhiteSpace c = (of_char c \<in> {9, 10, 11, 12, 13, 32, 160 :: nat})"

definition trim :: "string \<Rightarrow> string" where
  "trim s = rev (dropWhile isWhiteSpace (rev (dropWhile isWhiteSpace s)))"

text \<open>\<^verbatim>\<open>s.includes(sub)\<close>.\<close>

fun includesString :: "string \<Rightarrow> string \<Rightarrow> bool" where
  "includesString [] sub = (sub = [])"
| "includesString (c # cs) sub = (prefix sub (c # cs) \<or> includesString cs sub)"

text \<open>An insertion-ordered \<^verbatim>\<open>Set\<close> of strings: \<^verbatim>\<open>add\<close> and \<^verbatim>\<open>delete\<close>.\<close>

definition set_add :: "string \<Rightarrow> string list \<Rightarrow> string list" where
  "set_add x xs = (if x \<in> set xs then xs else xs @ [x])"

definition set_delete :: "string \<Rightarrow> string list \<Rightarrow> string list" where
  "set_delete x xs = filter (\<lambda>y. y \<noteq> x) xs"

section \<open>The least-recently-used cache\<close>

text \<open>
  \<^verbatim>\<open>LRUCache\<close> of the \<^verbatim>\<open>lru-cache\<close> package, with the \<^verbatim>\<open>max\<close> option only: a list of
  entries, the most recently used first. \<^verbatim>\<open>get\<close> moves the entry it finds to the
  front, \<^verbatim>\<open>set\<close> puts the entry in front and drops what exceeds \<^verbatim>\<open>max\<close> from the
  back, \<^verbatim>\<open>delete\<close> removes the entry. Looking at an entry without touching the order
  is \<open>lru_peek\<close>; the engine never does that, the theorems do. A value that is itself a
  mutable object (the per-document cache) is changed in place by \<open>lru_update\<close>.
\<close>

type_synonym ('k, 'v) lru = "('k \<times> 'v) list"

definition lru_remove :: "'k \<Rightarrow> ('k, 'v) lru \<Rightarrow> ('k, 'v) lru" where
  "lru_remove k c = filter (\<lambda>p. fst p \<noteq> k) c"

definition lru_peek :: "'k \<Rightarrow> ('k, 'v) lru \<Rightarrow> 'v option" where
  "lru_peek k c = map_of c k"

definition lru_get :: "'k \<Rightarrow> ('k, 'v) lru \<Rightarrow> 'v option \<times> ('k, 'v) lru" where
  "lru_get k c =
     (case map_of c k of
        None \<Rightarrow> (None, c)
      | Some v \<Rightarrow> (Some v, (k, v) # lru_remove k c))"

definition lru_set :: "nat \<Rightarrow> 'k \<Rightarrow> 'v \<Rightarrow> ('k, 'v) lru \<Rightarrow> ('k, 'v) lru" where
  "lru_set mx k v c = take mx ((k, v) # lru_remove k c)"

definition lru_delete :: "'k \<Rightarrow> ('k, 'v) lru \<Rightarrow> ('k, 'v) lru" where
  "lru_delete k c = lru_remove k c"

definition lru_update :: "'k \<Rightarrow> 'v \<Rightarrow> ('k, 'v) lru \<Rightarrow> ('k, 'v) lru" where
  "lru_update k v c = map (\<lambda>p. if fst p = k then (k, v) else p) c"

definition MAX_CACHED_DOCUMENTS :: nat where
  "MAX_CACHED_DOCUMENTS = 100"

definition MAX_CACHED_DEFINITION_LOCATIONS :: nat where
  "MAX_CACHED_DEFINITION_LOCATIONS = 100"

definition MAX_CACHED_DEFINITIONS :: nat where
  "MAX_CACHED_DEFINITIONS = 100"

section \<open>Data model\<close>

text \<open>A document URI is the string \<^verbatim>\<open>uri.toString()\<close> gives.\<close>

type_synonym UriString = string

record Position =
  line :: nat
  character :: nat

record Range =
  range_start :: Position
  range_end :: Position

record Location =
  loc_uri :: UriString
  loc_range :: Range

record SymbolSnippetsRequest =
  symbolName :: string
  req_uri :: UriString
  position :: Position
  nodeType :: string
  languageId :: string

text \<open>
  A \<^verbatim>\<open>DefinitionCacheEntry\<close>. Its optional \<^verbatim>\<open>relatedDefinitionKeys\<close> is a \<^verbatim>\<open>Set\<close>
  object that the cache entry and the snippets returned to the caller share, and that
  \<^verbatim>\<open>updateParentDefinitionKeys\<close> grows in place: the entry holds the address of the
  set in the store \<open>sets\<close> of the state.
\<close>

record DefinitionCacheEntry =
  entry_content :: string
  entry_relatedDefinitionKeys :: "nat option"

text \<open>
  A \<^verbatim>\<open>PartialSymbolSnippetInflightRequest\<close>: \<open>content\<close> is \<open>None\<close> for the bare
  snippet, and \<^verbatim>\<open>SymbolSnippetInflightRequest\<close> is the case where it is \<open>Some\<close>.
\<close>

record Snippet =
  key :: string
  snip_uri :: UriString
  startLine :: nat
  endLine :: nat
  symbol :: string
  location :: Location
  content :: "string option"
  relatedDefinitionKeys :: "nat option"

type_synonym DefinitionCache = "(UriString, (string, DefinitionCacheEntry) lru) lru"

type_synonym LocationCache = "(UriString, (string, Location list) lru) lru"

datatype getter = Definition | TypeDefinition | Implementation

text \<open>
  What the engine does to the outside, in the order it does it: the fan-out of a request
  with the recursion limit it is resolved under, the calls to the language server, and
  the reads of document text.
\<close>

datatype event =
  Requesting SymbolSnippetsRequest int
| LocationCall getter UriString Position
| HoverCall UriString Position
| TextRead Location

text \<open>
  The module's state: the two cache singletons, the reverse index
  \<^verbatim>\<open>documentToLocationCacheKeyMap\<close> of the location cache, the store of the
  \<^verbatim>\<open>relatedDefinitionKeys\<close> sets (a new set gets the next free address, the length of
  the store), and the trace of events.
\<close>

record state =
  definitionCache :: DefinitionCache
  locationCache :: LocationCache
  documentToLocationCacheKeyMap :: "UriString \<rightharpoonup> string list"
  sets :: "string list list"
  trace :: "event list"

definition emptyState :: state where
  "emptyState = \<lparr>definitionCache = [], locationCache = [],
     documentToLocationCacheKeyMap = Map.empty, sets = [], trace = []\<rparr>"

section \<open>The definition cache\<close>

definition toDefinitionCacheKey :: "Location \<Rightarrow> string" where
  "toDefinitionCacheKey l =
     show_nat (line (range_start (loc_range l))) @ '':'' @
     show_nat (character (range_start (loc_range l)))"

definition DefinitionCache_peek :: "Location \<Rightarrow> DefinitionCache \<Rightarrow> DefinitionCacheEntry option" where
  "DefinitionCache_peek l c =
     (case lru_peek (loc_uri l) c of
        None \<Rightarrow> None
      | Some documentCache \<Rightarrow> lru_peek (toDefinitionCacheKey l) documentCache)"

definition DefinitionCache_get ::
  "Location \<Rightarrow> DefinitionCache \<Rightarrow> DefinitionCacheEntry option \<times> DefinitionCache" where
  "DefinitionCache_get l c =
     (case lru_get (loc_uri l) c of
        (None, c1) \<Rightarrow> (None, c1)
      | (Some documentCache, c1) \<Rightarrow>
          (case lru_get (toDefinitionCacheKey l) documentCache of
             (r, documentCache1) \<Rightarrow> (r, lru_update (loc_uri l) documentCache1 c1)))"

definition DefinitionCache_set ::
  "Location \<Rightarrow> DefinitionCacheEntry \<Rightarrow> DefinitionCache \<Rightarrow> DefinitionCache" where
  "DefinitionCache_set l e c =
     (case lru_get (loc_uri l) c of
        (None, c1) \<Rightarrow>
          lru_update (loc_uri l)
            (lru_set MAX_CACHED_DEFINITIONS (toDefinitionCacheKey l) e [])
            (lru_set MAX_CACHED_DOCUMENTS (loc_uri l) [] c1)
      | (Some documentCache, c1) \<Rightarrow>
          lru_update (loc_uri l)
            (lru_set MAX_CACHED_DEFINITIONS (toDefinitionCacheKey l) e documentCache) c1)"

definition DefinitionCache_delete :: "Location \<Rightarrow> DefinitionCache \<Rightarrow> DefinitionCache" where
  "DefinitionCache_delete l c =
     (case lru_get (loc_uri l) c of
        (None, c1) \<Rightarrow> c1
      | (Some documentCache, c1) \<Rightarrow>
          lru_update (loc_uri l) (lru_delete (toDefinitionCacheKey l) documentCache) c1)"

definition DefinitionCache_deleteDocument :: "UriString \<Rightarrow> DefinitionCache \<Rightarrow> DefinitionCache" where
  "DefinitionCache_deleteDocument u c = lru_delete u c"

text \<open>
  The lookup \<^verbatim>\<open>definitionCache.cache.get(uriKey)?.get(definitionKey)\<close> by the two
  pieces of a \<^verbatim>\<open>DefinitionCacheEntryPath\<close>, as \<^verbatim>\<open>updateParentDefinitionKeys\<close> and
  \<^verbatim>\<open>getSymbolContextSnippets\<close> do it. A missing second piece finds nothing.
\<close>

definition DefinitionCache_peekPath :: "string \<Rightarrow> DefinitionCache \<Rightarrow> DefinitionCacheEntry option" where
  "DefinitionCache_peekPath path c =
     (case splitPath path of
        (uriKey, definitionKey) \<Rightarrow>
          (case lru_peek uriKey c of
             None \<Rightarrow> None
           | Some documentCache \<Rightarrow>
               (case definitionKey of
                  None \<Rightarrow> None
                | Some k \<Rightarrow> lru_peek k documentCache)))"

definition DefinitionCache_getPath ::
  "string \<Rightarrow> DefinitionCache \<Rightarrow> DefinitionCacheEntry option \<times> DefinitionCache" where
  "DefinitionCache_getPath path c =
     (case splitPath path of
        (uriKey, definitionKey) \<Rightarrow>
          (case lru_get uriKey c of
             (None, c1) \<Rightarrow> (None, c1)
           | (Some documentCache, c1) \<Rightarrow>
               (case definitionKey of
                  None \<Rightarrow> (None, c1)
                | Some k \<Rightarrow>
                    (case lru_get k documentCache of
                       (r, documentCache1) \<Rightarrow> (r, lru_update uriKey documentCache1 c1)))))"

section \<open>The definition-location cache and its reverse index\<close>

definition toLocationCacheKey :: "SymbolSnippetsRequest \<Rightarrow> string" where
  "toLocationCacheKey r =
     show_nat (line (position r)) @ '':'' @ show_nat (character (position r)) @ '':'' @
     nodeType r @ '':'' @ symbolName r"

definition DefinitionLocationCache_peek ::
  "SymbolSnippetsRequest \<Rightarrow> LocationCache \<Rightarrow> Location list option" where
  "DefinitionLocationCache_peek r c =
     (case lru_peek (req_uri r) c of
        None \<Rightarrow> None
      | Some documentCache \<Rightarrow> lru_peek (toLocationCacheKey r) documentCache)"

definition DefinitionLocationCache_get ::
  "SymbolSnippetsRequest \<Rightarrow> LocationCache \<Rightarrow> Location list option \<times> LocationCache" where
  "DefinitionLocationCache_get r c =
     (case lru_get (req_uri r) c of
        (None, c1) \<Rightarrow> (None, c1)
      | (Some documentCache, c1) \<Rightarrow>
          (case lru_get (toLocationCacheKey r) documentCache of
             (res, documentCache1) \<Rightarrow> (res, lru_update (req_uri r) documentCache1 c1)))"

definition addToDocumentToCacheKeyMap ::
  "UriString \<Rightarrow> string \<Rightarrow> (UriString \<rightharpoonup> string list) \<Rightarrow> (UriString \<rightharpoonup> string list)" where
  "addToDocumentToCacheKeyMap u cacheKey m =
     (let m1 = (if m u = None then m(u \<mapsto> []) else m)
      in case m1 u of
           None \<Rightarrow> m1
         | Some keys \<Rightarrow> m1(u \<mapsto> set_add cacheKey keys))"

definition removeFromDocumentToCacheKeyMap ::
  "UriString \<Rightarrow> string \<Rightarrow> (UriString \<rightharpoonup> string list) \<Rightarrow> (UriString \<rightharpoonup> string list)" where
  "removeFromDocumentToCacheKeyMap u cacheKey m =
     (case m u of
        None \<Rightarrow> m
      | Some keys \<Rightarrow>
          (let keys1 = set_delete cacheKey keys
           in if length keys1 = 0 then m(u := None) else m(u \<mapsto> keys1)))"

definition DefinitionLocationCache_set ::
  "SymbolSnippetsRequest \<Rightarrow> Location list \<Rightarrow> state \<Rightarrow> state" where
  "DefinitionLocationCache_set r locations s =
     (let u = req_uri r;
          locationCacheKey = toLocationCacheKey r;
          c = (case lru_get u (locationCache s) of
                 (None, c1) \<Rightarrow>
                   lru_update u
                     (lru_set MAX_CACHED_DEFINITION_LOCATIONS locationCacheKey locations [])
                     (lru_set MAX_CACHED_DOCUMENTS u [] c1)
               | (Some documentCache, c1) \<Rightarrow>
                   lru_update u
                     (lru_set MAX_CACHED_DEFINITION_LOCATIONS locationCacheKey locations documentCache)
                     c1)
      in s\<lparr>locationCache := c,
           documentToLocationCacheKeyMap :=
             foldl (\<lambda>m l. addToDocumentToCacheKeyMap (loc_uri l) (u @ ''::'' @ locationCacheKey) m)
               (documentToLocationCacheKeyMap s) locations\<rparr>)"

definition DefinitionLocationCache_delete :: "SymbolSnippetsRequest \<Rightarrow> LocationCache \<Rightarrow> LocationCache" where
  "DefinitionLocationCache_delete r c =
     (case lru_get (req_uri r) c of
        (None, c1) \<Rightarrow> c1
      | (Some documentCache, c1) \<Rightarrow>
          lru_update (req_uri r) (lru_delete (toLocationCacheKey r) documentCache) c1)"

text \<open>
  One turn of the loop of \<^verbatim>\<open>invalidateEntriesForDocument\<close>. The loop's
  \<^verbatim>\<open>const [uri, key] = cacheKey.split('::')\<close> declares a new \<^verbatim>\<open>uri\<close>, the requesting
  document's, that hides the method's parameter: both the cache access and
  \<^verbatim>\<open>removeFromDocumentToCacheKeyMap(uri, cacheKey)\<close> get this inner one.
\<close>

definition invalidateEntry :: "string \<Rightarrow> state \<Rightarrow> state" where
  "invalidateEntry cacheKey s =
     (case splitPath cacheKey of
        (u, k) \<Rightarrow>
          (let c = (case lru_get u (locationCache s) of
                      (None, c1) \<Rightarrow> c1
                    | (Some documentCache, c1) \<Rightarrow>
                        (case k of
                           None \<Rightarrow> c1
                         | Some k1 \<Rightarrow> lru_update u (lru_delete k1 documentCache) c1))
           in s\<lparr>locationCache := c,
                documentToLocationCacheKeyMap :=
                  removeFromDocumentToCacheKeyMap u cacheKey (documentToLocationCacheKeyMap s)\<rparr>))"

text \<open>
  The loop runs over the set stored for the document. A turn deletes from a set of the
  index only the key it is at, so running over the keys as they were when the loop began
  visits the same keys in the same order.
\<close>

definition invalidateEntriesForDocument :: "UriString \<Rightarrow> state \<Rightarrow> state" where
  "invalidateEntriesForDocument u s =
     (case documentToLocationCacheKeyMap s u of
        None \<Rightarrow> s
      | Some cacheKeysToRemove \<Rightarrow> foldl (\<lambda>s1 cacheKey. invalidateEntry cacheKey s1) s cacheKeysToRemove)"

definition invalidateDocumentCache :: "UriString \<Rightarrow> state \<Rightarrow> state" where
  "invalidateDocumentCache uriString s =
     invalidateEntriesForDocument uriString
       (s\<lparr>definitionCache := DefinitionCache_deleteDocument uriString (definitionCache s)\<rparr>)"

section \<open>The outside world\<close>

text \<open>
  A promise that rejects is the left injection, with the message of the exception.
\<close>

datatype error = Rejected string

text \<open>
  The language server, the documents and the syntax query are not part of the engine.
  They are a parameter of the model, fixed for the length of one retrieval:
  \<^item> \<open>locationProvider g u p\<close> is the outcome of \<^verbatim>\<open>getDefinitionLocations\<close>,
    \<^verbatim>\<open>getTypeDefinitionLocations\<close> or \<^verbatim>\<open>getImplementationLocations\<close> of
    \<^verbatim>\<open>lsp.ts\<close> at \<^verbatim>\<open>(uri, position)\<close>: the locations, or the exception thrown by
    \<^verbatim>\<open>executeCommand\<close> (the three functions have no handler of their own);
  \<^item> \<open>hoverProvider u p\<close> is the outcome of \<^verbatim>\<open>getHover\<close>, each hover given by the
    strings of its \<^verbatim>\<open>contents\<close>;
  \<^item> \<open>textFromLocation l\<close> is the outcome of \<^verbatim>\<open>getTextFromLocation\<close>;
  \<^item> \<open>identifiersFromString n u lang source\<close> is
    \<^verbatim>\<open>getLastNGraphContextIdentifiersFromString\<close>, and \<open>commonKeywords\<close> is
    \<^verbatim>\<open>commonKeywords.has\<close> of \<^verbatim>\<open>./languages\<close>.
\<close>

record world =
  locationProvider :: "getter \<Rightarrow> UriString \<Rightarrow> Position \<Rightarrow> error + Location list"
  hoverProvider :: "UriString \<Rightarrow> Position \<Rightarrow> error + string list list"
  textFromLocation :: "Location \<Rightarrow> error + string"
  identifiersFromString :: "nat \<Rightarrow> UriString \<Rightarrow> string \<Rightarrow> string \<Rightarrow> SymbolSnippetsRequest list"
  commonKeywords :: "string \<Rightarrow> bool"

text \<open>
  Modelled from the spec: \<^verbatim>\<open>createLimiter\<close> of \<^verbatim>\<open>./limiter\<close>, which is not among
  the sources. The spec gives it as a gate that admits an operation when fewer than
  \<^verbatim>\<open>limit\<close> are in flight and that fails the operation after \<^verbatim>\<open>timeout\<close>; what the
  caller awaits is the operation's own outcome, or a failure. Requests are resolved one
  after the other here, so the gate is always open, and a timeout is one of the
  failures a provider of the \<open>world\<close> may answer with; so is the abort signal that
  the hover call hands to the limiter.
\<close>

definition limiter :: "error + 'a \<Rightarrow> error + 'a" where
  "limiter outcome = outcome"

section \<open>Hover text\<close>

definition newline :: string where
  "newline = [char_of (10 :: nat)]"

fun codeBlockLines :: "bool \<Rightarrow> string list \<Rightarrow> string list" where
  "codeBlockLines isCodeBlock [] = []"
| "codeBlockLines isCodeBlock (l # ls) =
     (let isCodeBlockDelimiter = prefix ''```'' (trim l)
      in if isCodeBlockDelimiter \<and> \<not> isCodeBlock then codeBlockLines True ls
         else if isCodeBlockDelimiter \<and> isCodeBlock then codeBlockLines False ls
         else if isCodeBlock then l # codeBlockLines isCodeBlock ls
         else codeBlockLines isCodeBlock ls)"

definition extractMarkdownCodeBlock :: "string \<Rightarrow> string" where
  "extractMarkdownCodeBlock str = join newline (codeBlockLines False (split newline str))"

definition extractHoverContent :: "string list list \<Rightarrow> string list" where
  "extractHoverContent hover =
     filter (\<lambda>s. s \<noteq> []) (map trim (map extractMarkdownCodeBlock (concat hover)))"

definition isUnhelpfulSymbolSnippet :: "string \<Rightarrow> string \<Rightarrow> bool" where
  "isUnhelpfulSymbolSnippet name symbolSnippet =
     (let trimmed = trim symbolSnippet
      in symbolSnippet = [] \<or>
         symbolSnippet = name \<or>
         \<not> includesString symbolSnippet name \<or>
         trimmed = ''interface '' @ name \<or>
         trimmed = ''class '' @ name \<or>
         trimmed = ''enum '' @ name \<or>
         trimmed = ''type '' @ name)"

section \<open>The engine\<close>

text \<open>
  \<^verbatim>\<open>set.add(x)\<close> on the set at address \<open>a\<close> of the store. Every address the engine
  holds is below the length of the store.
\<close>

definition store_add :: "nat \<Rightarrow> string \<Rightarrow> string list list \<Rightarrow> string list list" where
  "store_add a x st = (if a < length st then st[a := set_add x (st ! a)] else st)"

definition store_get :: "nat \<Rightarrow> string list list \<Rightarrow> string list" where
  "store_get a st = (if a < length st then st ! a else [])"

text \<open>One turn of the loop of \<^verbatim>\<open>updateParentDefinitionKeys\<close>.\<close>

definition linkParent :: "string \<Rightarrow> string \<Rightarrow> state \<Rightarrow> state" where
  "linkParent childKey parentDefinitionCacheEntryPath s =
     (case DefinitionCache_getPath parentDefinitionCacheEntryPath (definitionCache s) of
        (r, c1) \<Rightarrow>
          (let s1 = s\<lparr>definitionCache := c1\<rparr>
           in case r of
                None \<Rightarrow> s1
              | Some e \<Rightarrow>
                  (case entry_relatedDefinitionKeys e of
                     None \<Rightarrow> s1
                   | Some a \<Rightarrow> s1\<lparr>sets := store_add a childKey (sets s1)\<rparr>)))"

definition updateParentDefinitionKeys :: "string list option \<Rightarrow> Snippet \<Rightarrow> state \<Rightarrow> state" where
  "updateParentDefinitionKeys parentDefinitionCacheEntryPaths symbolContextSnippet s =
     (case parentDefinitionCacheEntryPaths of
        None \<Rightarrow> s
      | Some paths \<Rightarrow> foldl (\<lambda>s1 p. linkParent (key symbolContextSnippet) p s1) s paths)"

definition isPropertyOrType :: "string \<Rightarrow> bool" where
  "isPropertyOrType nt = (nt = ''property_identifier'' \<or> nt = ''type_identifier'')"

text \<open>
  Lines 79 to 83 of \<^verbatim>\<open>getSnippetForLocationGetter\<close>: the locations come from the
  location cache, and from the provider (through the limiter) only when the cache has
  none for the request.
\<close>

definition fetchDefinitionLocations ::
  "world \<Rightarrow> SymbolSnippetsRequest \<Rightarrow> getter \<Rightarrow> state \<Rightarrow> (error + Location list) \<times> state" where
  "fetchDefinitionLocations w r locationGetter s =
     (case DefinitionLocationCache_get r (locationCache s) of
        (cached, c1) \<Rightarrow>
          (let s1 = s\<lparr>locationCache := c1\<rparr>
           in case cached of
                Some definitionLocations \<Rightarrow> (Inr definitionLocations, s1)
              | None \<Rightarrow>
                  (limiter (locationProvider w locationGetter (req_uri r) (position r)),
                   s1\<lparr>trace := trace s1 @ [LocationCall locationGetter (req_uri r) (position r)]\<rparr>)))"

definition bareSnippet :: "SymbolSnippetsRequest \<Rightarrow> Location \<Rightarrow> Snippet" where
  "bareSnippet r definitionLocation =
     \<lparr>key = loc_uri definitionLocation @ ''::'' @ toDefinitionCacheKey definitionLocation,
      snip_uri = loc_uri definitionLocation,
      startLine = line (range_start (loc_range definitionLocation)),
      endLine = line (range_end (loc_range definitionLocation)),
      symbol = symbolName r,
      location = definitionLocation,
      content = None,
      relatedDefinitionKeys = None\<rparr>"

text \<open>
  Lines 116 to 148: the definition text is extracted, by node type. The result is the
  snippet with its content, the bare snippet when hover text and source text are both
  unhelpful, or the rejection of a call.
\<close>

definition extractDefinition ::
  "world \<Rightarrow> SymbolSnippetsRequest \<Rightarrow> Location list \<Rightarrow> Location \<Rightarrow> state \<Rightarrow>
     (error + Snippet option) \<times> state" where
  "extractDefinition w r definitionLocations definitionLocation s =
     (let symbolContextSnippet = bareSnippet r definitionLocation;
          done = (\<lambda>definitionString s1.
            (Inr (Some (symbolContextSnippet\<lparr>content := Some definitionString\<rparr>)),
             DefinitionLocationCache_set r definitionLocations s1));
          sText = s\<lparr>trace := trace s @ [TextRead definitionLocation]\<rparr>
      in if isPropertyOrType (nodeType r) then
           (case textFromLocation w definitionLocation of
              Inl e \<Rightarrow> (Inl e, sText)
            | Inr definitionString \<Rightarrow> done definitionString sText)
         else
           (let sHover = s\<lparr>trace := trace s @
                  [HoverCall (loc_uri definitionLocation) (range_start (loc_range definitionLocation))]\<rparr>
            in case limiter (hoverProvider w (loc_uri definitionLocation)
                      (range_start (loc_range definitionLocation))) of
                 Inl e \<Rightarrow> (Inl e, sHover)
               | Inr hoverContent \<Rightarrow>
                   (let definitionString = join newline (extractHoverContent hoverContent)
                    in if isUnhelpfulSymbolSnippet (symbolName r) definitionString then
                         (let sText2 = sHover\<lparr>trace := trace sHover @ [TextRead definitionLocation]\<rparr>
                          in case textFromLocation w definitionLocation of
                               Inl e \<Rightarrow> (Inl e, sText2)
                             | Inr definitionString2 \<Rightarrow>
                                 if isUnhelpfulSymbolSnippet (symbolName r) definitionString2
                                 then (Inr (Some symbolContextSnippet), sText2)
                                 else done definitionString2 sText2)
                       else done definitionString sHover)))"

text \<open>Lines 85 to 148: what is done with the locations, however they were got.\<close>

definition snippetForLocations ::
  "world \<Rightarrow> SymbolSnippetsRequest \<Rightarrow> string list option \<Rightarrow> Location list \<Rightarrow> state \<Rightarrow>
     (error + Snippet option) \<times> state" where
  "snippetForLocations w r parentDefinitionCacheEntryPaths definitionLocations s =
     (case definitionLocations of
        [] \<Rightarrow> (Inr None, s\<lparr>locationCache := DefinitionLocationCache_delete r (locationCache s)\<rparr>)
      | definitionLocation # _ \<Rightarrow>
          (let symbolContextSnippet = bareSnippet r definitionLocation
           in case DefinitionCache_get definitionLocation (definitionCache s) of
                (cachedDefinition, c1) \<Rightarrow>
                  (let s1 = s\<lparr>definitionCache := c1\<rparr>
                   in case cachedDefinition of
                        Some e \<Rightarrow>
                          (Inr (Some (symbolContextSnippet
                                  \<lparr>content := Some (entry_content e),
                                   relatedDefinitionKeys := entry_relatedDefinitionKeys e\<rparr>)),
                           updateParentDefinitionKeys parentDefinitionCacheEntryPaths
                             symbolContextSnippet s1)
                      | None \<Rightarrow> extractDefinition w r definitionLocations definitionLocation s1)))"

definition getSnippetForLocationGetter ::
  "world \<Rightarrow> SymbolSnippetsRequest \<Rightarrow> string list option \<Rightarrow> getter \<Rightarrow> state \<Rightarrow>
     (error + Snippet option) \<times> state" where
  "getSnippetForLocationGetter w r parentDefinitionCacheEntryPaths locationGetter s =
     (case fetchDefinitionLocations w r locationGetter s of
        (Inl e, s1) \<Rightarrow> (Inl e, s1)
      | (Inr definitionLocations, s1) \<Rightarrow>
          snippetForLocations w r parentDefinitionCacheEntryPaths definitionLocations s1)"

definition getters :: "string \<Rightarrow> getter list" where
  "getters nt =
     (if isPropertyOrType nt then [Definition, TypeDefinition, Implementation]
      else [TypeDefinition, Implementation, Definition])"

definition hasContent :: "Snippet option \<Rightarrow> bool" where
  "hasContent symbolContextSnippet =
     (case symbolContextSnippet of None \<Rightarrow> False | Some sn \<Rightarrow> content sn \<noteq> None)"

text \<open>
  The loop over the getters, lines 156 to 163. \<open>previous\<close> is the variable
  \<^verbatim>\<open>symbolContextSnippet\<close>, which every turn overwrites.
\<close>

fun getterLoop ::
  "world \<Rightarrow> SymbolSnippetsRequest \<Rightarrow> string list option \<Rightarrow> getter list \<Rightarrow> Snippet option \<Rightarrow>
     state \<Rightarrow> (error + Snippet option) \<times> state" where
  "getterLoop w r ps [] previous s = (Inr previous, s)"
| "getterLoop w r ps (g # gs) previous s =
     (case getSnippetForLocationGetter w r ps g s of
        (Inl e, s1) \<Rightarrow> (Inl e, s1)
      | (Inr symbolContextSnippet, s1) \<Rightarrow>
          if hasContent symbolContextSnippet then (Inr symbolContextSnippet, s1)
          else getterLoop w r ps gs symbolContextSnippet s1)"

text \<open>Lines 185 to 200: the requests found in the definition text.\<close>

definition translate :: "Position \<Rightarrow> nat \<Rightarrow> nat \<Rightarrow> Position" where
  "translate p lineDelta characterDelta =
     \<lparr>line = line p + lineDelta, character = character p + characterDelta\<rparr>"

definition childRequests ::
  "world \<Rightarrow> SymbolSnippetsRequest \<Rightarrow> Location \<Rightarrow> string \<Rightarrow> SymbolSnippetsRequest list" where
  "childRequests w r definitionLocation definitionString =
     map (\<lambda>request. request\<lparr>position :=
            translate (position request)
              (line (range_start (loc_range definitionLocation)))
              (character (range_start (loc_range definitionLocation)))\<rparr>)
       (filter (\<lambda>request. symbolName r \<noteq> symbolName request \<and> \<not> commonKeywords w (symbolName request))
          (identifiersFromString w 5 (loc_uri definitionLocation) (languageId r) definitionString))"

text \<open>\<^verbatim>\<open>new Set([key, ...(parents || [])])\<close>.\<close>

definition childParents :: "string \<Rightarrow> string list option \<Rightarrow> string list" where
  "childParents k parentDefinitionCacheEntryPaths =
     foldl (\<lambda>acc x. set_add x acc) []
       (k # (case parentDefinitionCacheEntryPaths of None \<Rightarrow> [] | Some ps \<Rightarrow> ps))"

text \<open>
  \<^verbatim>\<open>Promise.all\<close> over the outcomes of the requests: the first rejection, or all the
  values; then \<^verbatim>\<open>.flat().filter(isDefined)\<close>.
\<close>

fun promiseAll :: "(error + 'a) list \<Rightarrow> error + 'a list" where
  "promiseAll [] = Inr []"
| "promiseAll (Inl e # _) = Inl e"
| "promiseAll (Inr x # outs) = (case promiseAll outs of Inl e \<Rightarrow> Inl e | Inr xs \<Rightarrow> Inr (x # xs))"

definition flatDefined :: "'a list option list \<Rightarrow> 'a list" where
  "flatDefined xs = concat (map (\<lambda>x. case x of None \<Rightarrow> [] | Some ys \<Rightarrow> ys) xs)"

text \<open>
  Lines 151 to 204 of \<^verbatim>\<open>getSymbolSnippetForNodeType\<close>, up to the point where it
  either returns or goes on to expand the definition it found: the getter loop, the two
  early returns, the first write to the definition cache, the parent linkage and the
  requests found in the definition text.
\<close>

datatype resolved =
  Rejects error
| Returns "Snippet list option"
| Expands Snippet string "SymbolSnippetsRequest list"

definition resolveDefinition ::
  "world \<Rightarrow> SymbolSnippetsRequest \<Rightarrow> string list option \<Rightarrow> state \<Rightarrow> resolved \<times> state" where
  "resolveDefinition w r ps s =
     (case getterLoop w r ps (getters (nodeType r)) None s of
        (Inl e, s1) \<Rightarrow> (Rejects e, s1)
      | (Inr None, s1) \<Rightarrow> (Returns None, s1)
      | (Inr (Some symbolContextSnippet), s1) \<Rightarrow>
          (case content symbolContextSnippet of
             None \<Rightarrow>
               (Returns None,
                s1\<lparr>definitionCache :=
                     DefinitionCache_delete (location symbolContextSnippet) (definitionCache s1)\<rparr>)
           | Some definitionString \<Rightarrow>
               (let definitionLocation = location symbolContextSnippet;
                    s2 = s1\<lparr>definitionCache :=
                           DefinitionCache_set definitionLocation
                             \<lparr>entry_content = definitionString, entry_relatedDefinitionKeys = None\<rparr>
                             (definitionCache s1)\<rparr>;
                    s3 = updateParentDefinitionKeys ps symbolContextSnippet s2;
                    symbolsSnippetRequests = childRequests w r definitionLocation definitionString
                in if length symbolsSnippetRequests = 0
                   then (Returns (Some [symbolContextSnippet]), s3)
                   else (Expands symbolContextSnippet definitionString symbolsSnippetRequests, s3))))"

text \<open>
  Lines 206 to 211: the second write to the definition cache, of an entry with a new,
  empty set of related keys. The set is allocated at the end of the store.
\<close>

definition setDefinitionCacheEntry :: "Snippet \<Rightarrow> string \<Rightarrow> state \<Rightarrow> state" where
  "setDefinitionCacheEntry symbolContextSnippet definitionString s =
     s\<lparr>sets := sets s @ [[]],
       definitionCache :=
         DefinitionCache_set (location symbolContextSnippet)
           \<lparr>entry_content = definitionString, entry_relatedDefinitionKeys = Some (length (sets s))\<rparr>
           (definitionCache s)\<rparr>"

text \<open>
  The two mutually recursive functions of the engine. The recursion limit is an integer
  that is compared with 0 and decremented, so a negative limit never stops the
  recursion by itself: the functions take fuel, one unit for each nested call of
  \<^verbatim>\<open>getSymbolContextSnippetsRecursive\<close>, and \<open>None\<close> is the run that the fuel does not
  see the end of. \<open>resolveAll\<close> is the \<^verbatim>\<open>map\<close> of \<^verbatim>\<open>getSymbolContextSnippetsRecursive\<close>
  over the requests: they are resolved one after the other, each to its end, and the
  requests after a rejected one are resolved as well.
\<close>

function getSymbolSnippetForNodeType ::
  "nat \<Rightarrow> world \<Rightarrow> SymbolSnippetsRequest \<Rightarrow> int \<Rightarrow> string list option \<Rightarrow> state \<Rightarrow>
     ((error + Snippet list option) \<times> state) option"
and resolveAll ::
  "nat \<Rightarrow> world \<Rightarrow> SymbolSnippetsRequest list \<Rightarrow> int \<Rightarrow> string list option \<Rightarrow> state \<Rightarrow>
     ((error + Snippet list option) list \<times> state) option"
and getSymbolContextSnippetsRecursive ::
  "nat \<Rightarrow> world \<Rightarrow> SymbolSnippetsRequest list \<Rightarrow> int \<Rightarrow> string list option \<Rightarrow> state \<Rightarrow>
     ((error + Snippet list) \<times> state) option"
where
  "getSymbolSnippetForNodeType fuel w r recursionLimit ps s =
     (case resolveDefinition w r ps s of
        (Rejects e, s1) \<Rightarrow> Some (Inl e, s1)
      | (Returns x, s1) \<Rightarrow> Some (Inr x, s1)
      | (Expands symbolContextSnippet definitionString symbolsSnippetRequests, s3) \<Rightarrow>
          (case fuel of
             0 \<Rightarrow> None
           | Suc fuel1 \<Rightarrow>
               (case getSymbolContextSnippetsRecursive fuel1 w symbolsSnippetRequests
                       (recursionLimit - 1)
                       (Some (childParents (key symbolContextSnippet) ps))
                       (setDefinitionCacheEntry symbolContextSnippet definitionString s3) of
                  None \<Rightarrow> None
                | Some (Inl e, s5) \<Rightarrow> Some (Inl e, s5)
                | Some (Inr _, s5) \<Rightarrow>
                    Some (Inr (Some [symbolContextSnippet
                            \<lparr>content := Some definitionString,
                             relatedDefinitionKeys := Some (length (sets s3))\<rparr>]), s5))))"
| "resolveAll fuel w [] recursionLimit ps s = Some ([], s)"
| "resolveAll fuel w (r # rs) recursionLimit ps s =
     (case getSymbolSnippetForNodeType fuel w r recursionLimit ps
             (s\<lparr>trace := trace s @ [Requesting r recursionLimit]\<rparr>) of
        None \<Rightarrow> None
      | Some (out, s1) \<Rightarrow>
          (case resolveAll fuel w rs recursionLimit ps s1 of
             None \<Rightarrow> None
           | Some (outs, s2) \<Rightarrow> Some (out # outs, s2)))"
| "getSymbolContextSnippetsRecursive fuel w symbolsSnippetRequests recursionLimit ps s =
     (if recursionLimit = 0 then Some (Inr [], s)
      else
        (case resolveAll fuel w symbolsSnippetRequests recursionLimit ps s of
           None \<Rightarrow> None
         | Some (outs, s1) \<Rightarrow>
             Some ((case promiseAll outs of
                      Inl e \<Rightarrow> Inl e
                    | Inr contextSnippets \<Rightarrow> Inr (flatDefined contextSnippets)), s1)))"
  by pat_completeness auto
termination
  by (relation "inv_image (less_than <*lex*> less_than)
        (\<lambda>x. case x of
           Inl (fuel, w, r, recursionLimit, ps, s) \<Rightarrow> (fuel, 0)
         | Inr (Inl (fuel, w, rs, recursionLimit, ps, s)) \<Rightarrow> (fuel, length rs + 1)
         | Inr (Inr (fuel, w, rs, recursionLimit, ps, s)) \<Rightarrow> (fuel, length rs + 2))")
     auto

declare getSymbolSnippetForNodeType.simps [simp del]
declare getSymbolContextSnippetsRecursive.simps [simp del]

section \<open>The result assembler\<close>

text \<open>
  The callback of the inner \<^verbatim>\<open>flatMap\<close> of \<^verbatim>\<open>getSymbolContextSnippets\<close> for one
  related key: nothing for the snippet's own key, else the content of the entry the
  key leads to, if there is one.
\<close>

definition relatedDefinition ::
  "Snippet \<Rightarrow> string \<Rightarrow> DefinitionCache \<Rightarrow> string option \<times> DefinitionCache" where
  "relatedDefinition snippet k c =
     (if k = key snippet then (None, c)
      else (case DefinitionCache_getPath k c of (r, c1) \<Rightarrow> (map_option entry_content r, c1)))"

fun relatedDefinitions ::
  "Snippet \<Rightarrow> string list \<Rightarrow> DefinitionCache \<Rightarrow> string option list \<times> DefinitionCache" where
  "relatedDefinitions snippet [] c = ([], c)"
| "relatedDefinitions snippet (k # ks) c =
     (case relatedDefinition snippet k c of
        (x, c1) \<Rightarrow> (case relatedDefinitions snippet ks c1 of (xs, c2) \<Rightarrow> (x # xs, c2)))"

definition definedOnly :: "'a option list \<Rightarrow> 'a list" where
  "definedOnly xs = concat (map (\<lambda>x. case x of None \<Rightarrow> [] | Some y \<Rightarrow> [y]) xs)"

definition contentString :: "Snippet \<Rightarrow> string" where
  "contentString snippet = (case content snippet of None \<Rightarrow> [] | Some c \<Rightarrow> c)"

definition withRelatedSnippets :: "Snippet \<Rightarrow> state \<Rightarrow> Snippet \<times> state" where
  "withRelatedSnippets snippet s =
     (case relatedDefinitionKeys snippet of
        None \<Rightarrow> (snippet, s)
      | Some a \<Rightarrow>
          (case relatedDefinitions snippet (store_get a (sets s)) (definitionCache s) of
             (xs, c1) \<Rightarrow>
               (snippet\<lparr>content := Some (join newline (definedOnly xs @ [contentString snippet]))\<rparr>,
                s\<lparr>definitionCache := c1\<rparr>)))"

fun assemble :: "Snippet list \<Rightarrow> state \<Rightarrow> Snippet list \<times> state" where
  "assemble [] s = ([], s)"
| "assemble (snippet # rest) s =
     (case withRelatedSnippets snippet s of
        (x, s1) \<Rightarrow> (case assemble rest s1 of (xs, s2) \<Rightarrow> (x # xs, s2)))"

definition getSymbolContextSnippets ::
  "nat \<Rightarrow> world \<Rightarrow> SymbolSnippetsRequest list \<Rightarrow> int \<Rightarrow> state \<Rightarrow>
     ((error + Snippet list) \<times> state) option" where
  "getSymbolContextSnippets fuel w symbolsSnippetRequests recursionLimit s =
     (case getSymbolContextSnippetsRecursive fuel w symbolsSnippetRequests recursionLimit None s of
        None \<Rightarrow> None
      | Some (Inl e, s1) \<Rightarrow> Some (Inl e, s1)
      | Some (Inr result, s1) \<Rightarrow>
          (case assemble result s1 of
             (resultWithRelatedSnippets, s2) \<Rightarrow> Some (Inr resultWithRelatedSnippets, s2)))"

section \<open>What the theorems observe\<close>

text \<open>Kinds of events of the trace.\<close>

definition isLocationCall :: "event \<Rightarrow> bool" where
  "isLocationCall ev = (case ev of LocationCall g u p \<Rightarrow> True | _ \<Rightarrow> False)"

definition isRequesting :: "event \<Rightarrow> bool" where
  "isRequesting ev = (case ev of Requesting r n \<Rightarrow> True | _ \<Rightarrow> False)"

text \<open>
  The test \<^verbatim>\<open>symbolContextSnippet?.content !== undefined\<close> of the getter loop, on
  the outcome of a getter attempt; a rejected attempt has no content.
\<close>

definition yieldsContent :: "error + Snippet option \<Rightarrow> bool" where
  "yieldsContent out = (case out of Inl e \<Rightarrow> False | Inr x \<Rightarrow> hasContent x)"


text \<open>
  Every request fanned out in a stretch of the trace was resolved under a recursion
  limit between 1 and \<open>recursionLimit\<close>. A run started with limit \<open>R\<close> resolves its
  first requests under \<open>R\<close> and the requests found \<open>d\<close> expansions further under
  \<open>R - d\<close>, so this bounds the depth by \<open>R\<close>.
\<close>

definition requestsWithin :: "int \<Rightarrow> event list \<Rightarrow> bool" where
  "requestsWithin recursionLimit new =
     (\<forall>r n. Requesting r n \<in> set new \<longrightarrow> 0 < n \<and> n \<le> recursionLimit)"


text \<open>
  The assembled content in the words of the spec: the contents of the related
  definitions, without the keys equal to the snippet's own key and the keys that lead
  to no entry of the definition cache, then the snippet's own content, joined by
  newlines. \<open>assembled\<close> is the snippet a snippet becomes.
\<close>

definition assembledContent :: "Snippet \<Rightarrow> string list \<Rightarrow> DefinitionCache \<Rightarrow> string" where
  "assembledContent snippet relatedKeys c =
     join newline
       (map (\<lambda>k. case DefinitionCache_peekPath k c of None \<Rightarrow> [] | Some e \<Rightarrow> entry_content e)
          (filter (\<lambda>k. k \<noteq> key snippet \<and> DefinitionCache_peekPath k c \<noteq> None) relatedKeys)
        @ [contentString snippet])"

definition assembled :: "state \<Rightarrow> Snippet \<Rightarrow> Snippet" where
  "assembled s snippet =
     (case relatedDefinitionKeys snippet of
        None \<Rightarrow> snippet
      | Some a \<Rightarrow>
          snippet\<lparr>content := Some (assembledContent snippet (store_get a (sets s)) (definitionCache s))\<rparr>)"





definition lruRel :: "('v \<Rightarrow> 'v \<Rightarrow> bool) \<Rightarrow> ('k, 'v) lru \<Rightarrow> ('k, 'v) lru \<Rightarrow> bool" where
  "lruRel R c c' = list_all2 (\<lambda>p q. fst p = fst q \<and> R (snd p) (snd q)) c c'"




section \<open>Example inputs\<close>

text \<open>
  Two requests in the document \<^verbatim>\<open>a.ts\<close> and a definition in \<^verbatim>\<open>b.ts\<close>. In
  \<open>worldFoo\<close> every location provider answers with that definition, the hover text is
  the bare \<^verbatim>\<open>class Foo\<close> and the source text is a class with a body.
\<close>

definition requestFoo :: SymbolSnippetsRequest where
  "requestFoo = \<lparr>symbolName = ''Foo'', req_uri = ''file:///a.ts'',
     position = \<lparr>line = 1, character = 2\<rparr>, nodeType = ''identifier'',
     languageId = ''typescript''\<rparr>"

definition requestBar :: SymbolSnippetsRequest where
  "requestBar = \<lparr>symbolName = ''Bar'', req_uri = ''file:///a.ts'',
     position = \<lparr>line = 2, character = 4\<rparr>, nodeType = ''identifier'',
     languageId = ''typescript''\<rparr>"

definition locationB :: Location where
  "locationB = \<lparr>loc_uri = ''file:///b.ts'',
     loc_range = \<lparr>range_start = \<lparr>line = 3, character = 0\<rparr>,
                  range_end = \<lparr>line = 5, character = 1\<rparr>\<rparr>\<rparr>"

definition worldFoo :: world where
  "worldFoo = \<lparr>locationProvider = (\<lambda>g u p. Inr [locationB]),
     hoverProvider = (\<lambda>u p. Inr [[''```ts'' @ newline @ ''class Foo'' @ newline @ ''```'']]),
     textFromLocation = (\<lambda>l. Inr ''class Foo extends Bar {}''),
     identifiersFromString = (\<lambda>n u lang source. []),
     commonKeywords = (\<lambda>x. False)\<rparr>"

text \<open>The same world, but the location providers throw at the position of \<open>requestFoo\<close>.\<close>

definition worldThrow :: world where
  "worldThrow = worldFoo\<lparr>locationProvider :=
     (\<lambda>g u p. if p = position requestFoo then Inl (Rejected ''no provider'') else Inr [locationB])\<rparr>"

text \<open>
  A second definition, in \<^verbatim>\<open>c.ts\<close>; the world where both the hover text and the
  source text of \<open>Foo\<close> are the bare \<^verbatim>\<open>class Foo\<close>; the world where no provider
  finds a location; and a world with one expansion: the text of \<open>Foo\<close> mentions \<open>Bar\<close>
  (the identifier found in the text, and the request it becomes at the position of the
  definition of \<open>Foo\<close>), which is defined in \<^verbatim>\<open>c.ts\<close>.
\<close>

definition locationC :: Location where
  "locationC = \<lparr>loc_uri = ''file:///c.ts'',
     loc_range = \<lparr>range_start = \<lparr>line = 7, character = 2\<rparr>,
                  range_end = \<lparr>line = 9, character = 3\<rparr>\<rparr>\<rparr>"

definition worldBare :: world where
  "worldBare = worldFoo\<lparr>textFromLocation := (\<lambda>l. Inr ''class Foo'')\<rparr>"

definition worldEmpty :: world where
  "worldEmpty = worldFoo\<lparr>locationProvider := (\<lambda>g u p. Inr [])\<rparr>"

definition requestBarInB :: SymbolSnippetsRequest where
  "requestBarInB = \<lparr>symbolName = ''Bar'', req_uri = ''file:///b.ts'',
     position = \<lparr>line = 0, character = 18\<rparr>, nodeType = ''type_identifier'',
     languageId = ''typescript''\<rparr>"

definition requestBarAtFoo :: SymbolSnippetsRequest where
  "requestBarAtFoo = requestBarInB\<lparr>position := \<lparr>line = 3, character = 18\<rparr>\<rparr>"

definition worldNested :: world where
  "worldNested = \<lparr>
     locationProvider = (\<lambda>g u p. if u = ''file:///a.ts'' then Inr [locationB]
                                 else if u = ''file:///b.ts'' then Inr [locationC] else Inr []),
     hoverProvider = (\<lambda>u p. Inr [[''```ts'' @ newline @ ''class Foo'' @ newline @ ''```'']]),
     textFromLocation = (\<lambda>l. if l = locationB then Inr ''class Foo extends Bar {}''
                              else Inr ''class Bar { x: number }''),
     identifiersFromString = (\<lambda>n u lang source.
        if source = ''class Foo extends Bar {}'' then [requestBarInB] else []),
     commonKeywords = (\<lambda>x. False)\<rparr>"

text \<open>
  States that runs of the engine reach: after \<open>Foo\<close> was resolved once in \<open>worldFoo\<close>;
  after the definition of \<open>Foo\<close> got its entry with an empty set of related keys; the
  same with the definition of \<open>Bar\<close> cached as well; and the result and the state of
  the recursive engine in \<open>worldNested\<close>.
\<close>

definition stateFoo :: state where
  "stateFoo = (case getSymbolContextSnippets 1 worldFoo [requestFoo] 1 emptyState of
                 None \<Rightarrow> emptyState | Some (out, s) \<Rightarrow> s)"



definition resultNested :: "Snippet list" where
  "resultNested =
     (case getSymbolContextSnippetsRecursive 2 worldNested [requestFoo] 2 None emptyState of
        Some (Inr xs, s) \<Rightarrow> xs | _ \<Rightarrow> [])"

definition stateNested :: state where
  "stateNested =
     (case getSymbolContextSnippetsRecursive 2 worldNested [requestFoo] 2 None emptyState of
        Some (out, s) \<Rightarrow> s | None \<Rightarrow> emptyState)"

section \<open>Lemmas on the caches and on one getter attempt\<close>

lemma lru_peek_Nil: "lru_peek k [] = None"
  by (simp add: lru_peek_def)

lemma lru_peek_Cons: "lru_peek k' ((k, v) # c) = (if k' = k then Some v else lru_peek k' c)"
  by (simp add: lru_peek_def)

lemma lru_peek_remove: "lru_peek k' (lru_remove k c) = (if k' = k then None else lru_peek k' c)"
  by (induction c) (auto simp: lru_remove_def lru_peek_def)

lemma lru_peek_delete: "lru_peek k' (lru_delete k c) = (if k' = k then None else lru_peek k' c)"
  by (simp add: lru_delete_def lru_peek_remove)

lemma lru_peek_update:
  "lru_peek k' (lru_update k v c) = (if k' = k then map_option (\<lambda>_. v) (lru_peek k c) else lru_peek k' c)"
  by (induction c) (auto simp: lru_update_def lru_peek_def)

lemma lru_peek_set_same: "0 < mx \<Longrightarrow> lru_peek k (lru_set mx k v c) = Some v"
  by (cases mx) (auto simp: lru_set_def lru_peek_def)


lemma lru_get_alt:
  "lru_get k c = (lru_peek k c, (case lru_peek k c of None \<Rightarrow> c | Some v \<Rightarrow> (k, v) # lru_remove k c))"
  by (simp add: lru_get_def lru_peek_def split: option.splits)

lemmas lru_peek_simps = lru_peek_Nil lru_peek_Cons lru_peek_remove lru_peek_delete lru_peek_update lru_get_alt

lemma DefinitionLocationCache_get_fst:
  "fst (DefinitionLocationCache_get r c) = DefinitionLocationCache_peek r c"
  by (simp add: DefinitionLocationCache_get_def DefinitionLocationCache_peek_def lru_peek_simps split: option.splits)

lemma DefinitionLocationCache_peek_get:
  "DefinitionLocationCache_peek r' (snd (DefinitionLocationCache_get r c)) = DefinitionLocationCache_peek r' c"
  by (simp add: DefinitionLocationCache_get_def DefinitionLocationCache_peek_def lru_peek_simps split: option.splits)

lemma DefinitionLocationCache_peek_delete_same:
  "DefinitionLocationCache_peek r (DefinitionLocationCache_delete r c) = None"
  by (simp add: DefinitionLocationCache_delete_def DefinitionLocationCache_peek_def lru_peek_simps split: option.splits)

lemma DefinitionCache_get_fst:
  "fst (DefinitionCache_get l c) = DefinitionCache_peek l c"
  by (simp add: DefinitionCache_get_def DefinitionCache_peek_def lru_peek_simps split: option.splits)


lemma DefinitionLocationCache_peek_set_same:
  "DefinitionLocationCache_peek r (locationCache (DefinitionLocationCache_set r locs s)) = Some locs"
  by (simp add: DefinitionLocationCache_set_def DefinitionLocationCache_peek_def Let_def lru_peek_simps
        lru_peek_set_same MAX_CACHED_DOCUMENTS_def MAX_CACHED_DEFINITION_LOCATIONS_def split: option.splits)

lemma DefinitionCache_peek_set_same:
  "DefinitionCache_peek l (DefinitionCache_set l e c) = Some e"
  by (simp add: DefinitionCache_set_def DefinitionCache_peek_def Let_def lru_peek_simps
        lru_peek_set_same MAX_CACHED_DOCUMENTS_def MAX_CACHED_DEFINITIONS_def split: option.splits)

lemma DefinitionCache_getPath_fst:
  "fst (DefinitionCache_getPath p c) = DefinitionCache_peekPath p c"
  by (simp add: DefinitionCache_getPath_def DefinitionCache_peekPath_def lru_peek_simps
        split: prod.splits option.splits)

lemma DefinitionCache_peekPath_getPath:
  "DefinitionCache_peekPath p' (snd (DefinitionCache_getPath p c)) = DefinitionCache_peekPath p' c"
  by (simp add: DefinitionCache_getPath_def DefinitionCache_peekPath_def lru_peek_simps
        split: prod.splits option.splits)


lemma DefinitionLocationCache_set_fields [simp]:
  "trace (DefinitionLocationCache_set r locs s) = trace s"
  "definitionCache (DefinitionLocationCache_set r locs s) = definitionCache s"
  "sets (DefinitionLocationCache_set r locs s) = sets s"
  by (simp_all add: DefinitionLocationCache_set_def Let_def)

lemma DefinitionLocationCache_set_locationCache:
  "locationCache (DefinitionLocationCache_set r locs (s\<lparr>trace := t\<rparr>)) = locationCache (DefinitionLocationCache_set r locs s)"
  "documentToLocationCacheKeyMap (DefinitionLocationCache_set r locs (s\<lparr>trace := t\<rparr>)) = documentToLocationCacheKeyMap (DefinitionLocationCache_set r locs s)"
  by (simp_all add: DefinitionLocationCache_set_def Let_def)

lemma linkParent_fields [simp]:
  "trace (linkParent k p s) = trace s"
  "locationCache (linkParent k p s) = locationCache s"
  "documentToLocationCacheKeyMap (linkParent k p s) = documentToLocationCacheKeyMap s"
  "length (sets (linkParent k p s)) = length (sets s)"
  by (simp_all add: linkParent_def Let_def store_add_def split: prod.splits option.splits)

lemma foldl_linkParent_fields [simp]:
  "trace (foldl (\<lambda>s1 p. linkParent k p s1) s ps) = trace s"
  "locationCache (foldl (\<lambda>s1 p. linkParent k p s1) s ps) = locationCache s"
  "documentToLocationCacheKeyMap (foldl (\<lambda>s1 p. linkParent k p s1) s ps) = documentToLocationCacheKeyMap s"
  "length (sets (foldl (\<lambda>s1 p. linkParent k p s1) s ps)) = length (sets s)"
  by (induction ps arbitrary: s) simp_all

lemma updateParentDefinitionKeys_fields [simp]:
  "trace (updateParentDefinitionKeys ps sn s) = trace s"
  "locationCache (updateParentDefinitionKeys ps sn s) = locationCache s"
  "documentToLocationCacheKeyMap (updateParentDefinitionKeys ps sn s) = documentToLocationCacheKeyMap s"
  "length (sets (updateParentDefinitionKeys ps sn s)) = length (sets s)"
  by (simp_all add: updateParentDefinitionKeys_def split: option.splits)

lemma setDefinitionCacheEntry_trace [simp]:
  "trace (setDefinitionCacheEntry sn str s) = trace s"
  by (simp add: setDefinitionCacheEntry_def)

lemma isRequesting_simps [simp]:
  "isRequesting (Requesting r n)"
  "\<not> isRequesting (HoverCall u p)"
  "\<not> isRequesting (TextRead l)"
  "\<not> isRequesting (LocationCall g u p)"
  by (simp_all add: isRequesting_def)

lemma isLocationCall_simps [simp]:
  "isLocationCall (LocationCall g u p)"
  "\<not> isLocationCall (HoverCall u p)"
  "\<not> isLocationCall (TextRead l)"
  "\<not> isLocationCall (Requesting r n)"
  by (simp_all add: isLocationCall_def)

lemma fetchDefinitionLocations_hit:
  "DefinitionLocationCache_peek r (locationCache s) = Some locs \<Longrightarrow>
   fetchDefinitionLocations w r g s =
     (Inr locs, s\<lparr>locationCache := snd (DefinitionLocationCache_get r (locationCache s))\<rparr>)"
  using DefinitionLocationCache_get_fst [of r "locationCache s"]
  by (auto simp: fetchDefinitionLocations_def Let_def split: prod.splits)

lemma fetchDefinitionLocations_miss:
  "DefinitionLocationCache_peek r (locationCache s) = None \<Longrightarrow>
   fetchDefinitionLocations w r g s =
     (locationProvider w g (req_uri r) (position r),
      s\<lparr>locationCache := snd (DefinitionLocationCache_get r (locationCache s)),
        trace := trace s @ [LocationCall g (req_uri r) (position r)]\<rparr>)"
  using DefinitionLocationCache_get_fst [of r "locationCache s"]
  by (auto simp: fetchDefinitionLocations_def Let_def limiter_def split: prod.splits)

lemma snippetForLocations_hit:
  "DefinitionCache_peek l (definitionCache s) = Some e \<Longrightarrow>
   snippetForLocations w r ps (l # ls) s =
     (Inr (Some ((bareSnippet r l)\<lparr>content := Some (entry_content e),
                                   relatedDefinitionKeys := entry_relatedDefinitionKeys e\<rparr>)),
      updateParentDefinitionKeys ps (bareSnippet r l)
        (s\<lparr>definitionCache := snd (DefinitionCache_get l (definitionCache s))\<rparr>))"
  using DefinitionCache_get_fst [of l "definitionCache s"]
  by (auto simp: snippetForLocations_def Let_def split: prod.splits)

lemma snippetForLocations_miss:
  "DefinitionCache_peek l (definitionCache s) = None \<Longrightarrow>
   snippetForLocations w r ps (l # ls) s =
     extractDefinition w r (l # ls) l (s\<lparr>definitionCache := snd (DefinitionCache_get l (definitionCache s))\<rparr>)"
  using DefinitionCache_get_fst [of l "definitionCache s"]
  by (auto simp: snippetForLocations_def Let_def split: prod.splits)

lemma snippetForLocations_empty:
  "snippetForLocations w r ps [] s =
     (Inr None, s\<lparr>locationCache := DefinitionLocationCache_delete r (locationCache s)\<rparr>)"
  by (simp add: snippetForLocations_def)

lemma extractDefinition_effect:
  assumes "extractDefinition w r locs l s = (out, s')"
  shows "(\<exists>new. trace s' = trace s @ new \<and>
            (\<forall>ev \<in> set new. \<not> isLocationCall ev \<and> \<not> isRequesting ev)) \<and>
         sets s' = sets s \<and> definitionCache s' = definitionCache s \<and>
         (if yieldsContent out
          then locationCache s' = locationCache (DefinitionLocationCache_set r locs s) \<and>
               documentToLocationCacheKeyMap s' = documentToLocationCacheKeyMap (DefinitionLocationCache_set r locs s)
          else locationCache s' = locationCache s \<and>
               documentToLocationCacheKeyMap s' = documentToLocationCacheKeyMap s)"
  using assms
  by (auto simp: extractDefinition_def Let_def hasContent_def yieldsContent_def bareSnippet_def
        DefinitionLocationCache_set_locationCache split: if_splits sum.splits)

lemma snippetForLocations_trace:
  assumes "snippetForLocations w r ps locs s = (out, s')"
  shows "\<exists>new. trace s' = trace s @ new \<and>
           (\<forall>ev \<in> set new. \<not> isLocationCall ev \<and> \<not> isRequesting ev)"
proof (cases locs)
  case Nil
  with assms show ?thesis by (auto simp: snippetForLocations_empty)
next
  case (Cons l ls)
  show ?thesis
  proof (cases "DefinitionCache_peek l (definitionCache s)")
    case None
    with assms Cons have "extractDefinition w r (l # ls) l
        (s\<lparr>definitionCache := snd (DefinitionCache_get l (definitionCache s))\<rparr>) = (out, s')"
      by (simp add: snippetForLocations_miss)
    from extractDefinition_effect [OF this] show ?thesis by simp
  next
    case (Some e)
    with assms Cons show ?thesis by (auto simp: snippetForLocations_hit)
  qed
qed

lemma snippetForLocations_stores:
  assumes "snippetForLocations w r ps (l # ls) s = (out, s')"
      and "DefinitionCache_peek l (definitionCache s) = None"
      and "yieldsContent out"
  shows "DefinitionLocationCache_peek r (locationCache s') = Some (l # ls)"
proof -
  from assms have "extractDefinition w r (l # ls) l
      (s\<lparr>definitionCache := snd (DefinitionCache_get l (definitionCache s))\<rparr>) = (out, s')"
    by (simp add: snippetForLocations_miss)
  from extractDefinition_effect [OF this] assms(3) show ?thesis
    by (simp add: DefinitionLocationCache_peek_set_same)
qed

lemma getSnippetForLocationGetter_trace:
  assumes run: "getSnippetForLocationGetter w r ps g s = (out, s')"
  shows "\<exists>new. trace s' = trace s @ new \<and>
      filter isLocationCall new =
        (case DefinitionLocationCache_peek r (locationCache s) of
           Some locs \<Rightarrow> []
         | None \<Rightarrow> [LocationCall g (req_uri r) (position r)]) \<and>
      (\<forall>ev \<in> set new. \<not> isRequesting ev)"
proof (cases "DefinitionLocationCache_peek r (locationCache s)")
  case (Some locs)
  with run have "snippetForLocations w r ps locs
      (s\<lparr>locationCache := snd (DefinitionLocationCache_get r (locationCache s))\<rparr>) = (out, s')"
    by (simp add: getSnippetForLocationGetter_def fetchDefinitionLocations_hit)
  from snippetForLocations_trace [OF this] Some show ?thesis
    by (auto simp: filter_empty_conv)
next
  case None
  show ?thesis
  proof (cases "locationProvider w g (req_uri r) (position r)")
    case (Inl e)
    with run None show ?thesis
      by (auto simp: getSnippetForLocationGetter_def fetchDefinitionLocations_miss)
  next
    case (Inr locs)
    with run None have "snippetForLocations w r ps locs
        (s\<lparr>locationCache := snd (DefinitionLocationCache_get r (locationCache s)),
           trace := trace s @ [LocationCall g (req_uri r) (position r)]\<rparr>) = (out, s')"
      by (simp add: getSnippetForLocationGetter_def fetchDefinitionLocations_miss)
    from snippetForLocations_trace [OF this] obtain new where
      "trace s' = trace s @ LocationCall g (req_uri r) (position r) # new"
      "\<forall>ev \<in> set new. \<not> isLocationCall ev \<and> \<not> isRequesting ev"
      by auto
    with None show ?thesis
      by (intro exI [of _ "LocationCall g (req_uri r) (position r) # new"])
         (auto simp: filter_empty_conv)
  qed
qed

lemma getSnippetForLocationGetter_keeps_miss:
  assumes run: "getSnippetForLocationGetter w r ps g s = (out, s')"
      and miss: "DefinitionLocationCache_peek r (locationCache s) = None"
      and no: "\<not> yieldsContent out" "\<not> isl out"
  shows "DefinitionLocationCache_peek r (locationCache s') = None"
proof (cases "locationProvider w g (req_uri r) (position r)")
  case (Inl e)
  with run miss no show ?thesis
    by (auto simp: getSnippetForLocationGetter_def fetchDefinitionLocations_miss)
next
  case (Inr locs)
  let ?s0 = "s\<lparr>locationCache := snd (DefinitionLocationCache_get r (locationCache s)),
               trace := trace s @ [LocationCall g (req_uri r) (position r)]\<rparr>"
  from run miss Inr have sfl: "snippetForLocations w r ps locs ?s0 = (out, s')"
    by (simp add: getSnippetForLocationGetter_def fetchDefinitionLocations_miss)
  have miss0: "DefinitionLocationCache_peek r (locationCache ?s0) = None"
    using miss by (simp add: DefinitionLocationCache_peek_get)
  show ?thesis
  proof (cases locs)
    case Nil
    with sfl show ?thesis
      by (auto simp: snippetForLocations_empty DefinitionLocationCache_peek_delete_same)
  next
    case (Cons l ls)
    show ?thesis
    proof (cases "DefinitionCache_peek l (definitionCache ?s0)")
      case (Some e)
      from sfl no show ?thesis
        unfolding Cons snippetForLocations_hit [OF Some]
        by (auto simp: yieldsContent_def hasContent_def)
    next
      case None
      from sfl have "extractDefinition w r (l # ls) l
          (?s0\<lparr>definitionCache := snd (DefinitionCache_get l (definitionCache ?s0))\<rparr>) = (out, s')"
        unfolding Cons snippetForLocations_miss [OF None] .
      from extractDefinition_effect [OF this] no miss0 show ?thesis by simp
    qed
  qed
qed

lemma getSnippetForLocationGetter_miss_trace:
  assumes run: "getSnippetForLocationGetter w r ps g s = (out, s')"
      and miss: "DefinitionLocationCache_peek r (locationCache s) = None"
  shows "\<exists>new. trace s' = trace s @ new \<and>
           filter isLocationCall new = [LocationCall g (req_uri r) (position r)] \<and>
           (\<forall>ev \<in> set new. \<not> isRequesting ev)"
  using getSnippetForLocationGetter_trace [OF run] miss by auto

lemma getterLoop_calls:
  assumes "DefinitionLocationCache_peek r (locationCache s) = None"
      and "getterLoop w r ps gs previous s = (out, s')"
  shows "\<exists>n new. n \<le> length gs \<and> (gs \<noteq> [] \<longrightarrow> 0 < n) \<and> trace s' = trace s @ new \<and>
           filter isLocationCall new = map (\<lambda>g. LocationCall g (req_uri r) (position r)) (take n gs) \<and>
           (n < length gs \<longrightarrow> yieldsContent out \<or> isl out)"
  using assms
proof (induction gs arbitrary: previous s)
  case Nil
  then show ?case by simp
next
  case (Cons g gs)
  obtain o1 s1 where att: "getSnippetForLocationGetter w r ps g s = (o1, s1)"
    by (cases "getSnippetForLocationGetter w r ps g s")
  from getSnippetForLocationGetter_miss_trace [OF att Cons.prems(1)]
  obtain new1 where new1: "trace s1 = trace s @ new1"
      "filter isLocationCall new1 = [LocationCall g (req_uri r) (position r)]"
    by blast
  show ?case
  proof (cases "yieldsContent o1 \<or> isl o1")
    case True
    with Cons.prems(2) att have "out = o1" "s' = s1"
      by (auto simp: yieldsContent_def split: sum.splits if_splits)
    with new1 True show ?thesis
      by (intro exI [of _ 1] exI [of _ new1]) simp
  next
    case False
    then obtain x where x: "o1 = Inr x" "\<not> hasContent x"
      by (cases o1) (auto simp: yieldsContent_def)
    from Cons.prems(2) att x have loop: "getterLoop w r ps gs x s1 = (out, s')"
      by simp
    from False have "DefinitionLocationCache_peek r (locationCache s1) = None"
      using getSnippetForLocationGetter_keeps_miss [OF att Cons.prems(1)] by simp
    from Cons.IH [OF this loop] obtain n new where n:
      "n \<le> length gs" "trace s' = trace s1 @ new"
      "filter isLocationCall new = map (\<lambda>g. LocationCall g (req_uri r) (position r)) (take n gs)"
      "n < length gs \<longrightarrow> yieldsContent out \<or> isl out"
      by blast
    with new1 show ?thesis
      by (intro exI [of _ "Suc n"] exI [of _ "new1 @ new"]) simp
  qed
qed

lemma getterLoop_trace:
  assumes "getterLoop w r ps gs previous s = (out, s')"
  shows "\<exists>new. trace s' = trace s @ new \<and> (\<forall>ev \<in> set new. \<not> isRequesting ev)"
  using assms
proof (induction gs arbitrary: previous s)
  case Nil
  then show ?case by simp
next
  case (Cons g gs)
  obtain o1 s1 where att: "getSnippetForLocationGetter w r ps g s = (o1, s1)"
    by (cases "getSnippetForLocationGetter w r ps g s")
  from getSnippetForLocationGetter_trace [OF att]
  obtain new1 where new1: "trace s1 = trace s @ new1" "\<forall>ev \<in> set new1. \<not> isRequesting ev"
    by blast
  show ?case
  proof (cases "yieldsContent o1 \<or> isl o1")
    case True
    with Cons.prems att have "s' = s1"
      by (auto simp: yieldsContent_def split: sum.splits if_splits)
    with new1 show ?thesis by blast
  next
    case False
    then obtain x where x: "o1 = Inr x" "\<not> hasContent x"
      by (cases o1) (auto simp: yieldsContent_def)
    from Cons.prems att x have loop: "getterLoop w r ps gs x s1 = (out, s')"
      by simp
    from Cons.IH [OF loop] obtain new where "trace s' = trace s1 @ new" "\<forall>ev \<in> set new. \<not> isRequesting ev"
      by blast
    with new1 show ?thesis
      by (intro exI [of _ "new1 @ new"]) auto
  qed
qed

lemma resolveDefinition_trace:
  assumes "resolveDefinition w r ps s = (out, s')"
  shows "\<exists>new. trace s' = trace s @ new \<and> (\<forall>ev \<in> set new. \<not> isRequesting ev)"
proof -
  obtain o1 s1 where loop: "getterLoop w r ps (getters (nodeType r)) None s = (o1, s1)"
    by (cases "getterLoop w r ps (getters (nodeType r)) None s")
  from assms loop have "trace s' = trace s1"
    by (auto simp: resolveDefinition_def Let_def split: sum.splits option.splits if_splits)
  with getterLoop_trace [OF loop] show ?thesis by simp
qed

section \<open>Cache invalidation\<close>

text \<open>
  C1. After \<^verbatim>\<open>invalidateDocumentCache(D)\<close> the location-cache entries that resolve into
  \<open>D\<close> should be gone \<^emph>\<open>and\<close> their keys removed from the reverse index. The code
  deletes the entries, but for an entry of another document it leaves the key in the
  index of \<open>D\<close>: the loop removes the key from the index of the requesting document
  instead. Here \<open>Foo\<close>, requested in \<^verbatim>\<open>a.ts\<close>, is resolved into \<^verbatim>\<open>b.ts\<close>; the four
  components are the cached locations and the index of \<^verbatim>\<open>b.ts\<close>, before and after
  \<^verbatim>\<open>b.ts\<close> is invalidated.
\<close>

theorem invalidateDocumentCache_keeps_index_key:
  "map_option (\<lambda>(out, s).
      (DefinitionLocationCache_peek requestFoo (locationCache s),
       documentToLocationCacheKeyMap s ''file:///b.ts'',
       DefinitionLocationCache_peek requestFoo
         (locationCache (invalidateDocumentCache ''file:///b.ts'' s)),
       documentToLocationCacheKeyMap (invalidateDocumentCache ''file:///b.ts'' s) ''file:///b.ts''))
     (getSymbolContextSnippets 1 worldFoo [requestFoo] 1 emptyState)
   = Some (Some [locationB], Some [''file:///a.ts::1:2:identifier:Foo''],
           None, Some [''file:///a.ts::1:2:identifier:Foo''])"
  by code_simp

section \<open>Termination and depth of the recursion\<close>

lemma requestsWithin_none: "\<forall>ev \<in> set new. \<not> isRequesting ev \<Longrightarrow> requestsWithin n new"
  by (auto simp: requestsWithin_def)

lemma requestsWithin_append:
  "requestsWithin n (xs @ ys) = (requestsWithin n xs \<and> requestsWithin n ys)"
  by (auto simp: requestsWithin_def)

lemma requestsWithin_Cons:
  "requestsWithin n (ev # xs) = (requestsWithin n [ev] \<and> requestsWithin n xs)"
  by (auto simp: requestsWithin_def)

lemma requestsWithin_mono: "requestsWithin m new \<Longrightarrow> m \<le> n \<Longrightarrow> requestsWithin n new"
  by (fastforce simp: requestsWithin_def)

lemma getSymbolSnippetForNodeType_bounded:
  assumes IH: "\<And>fuel' reqs ps' s0. nat (recursionLimit - 1) \<le> fuel' \<Longrightarrow>
           \<exists>out s'. getSymbolContextSnippetsRecursive fuel' w reqs (recursionLimit - 1) ps' s0 = Some (out, s') \<and>
             (\<exists>new. trace s' = trace s0 @ new \<and> requestsWithin (recursionLimit - 1) new)"
      and pos: "0 < recursionLimit" and fuel: "nat recursionLimit \<le> fuel"
  shows "\<exists>out s'. getSymbolSnippetForNodeType fuel w r recursionLimit ps s = Some (out, s') \<and>
           (\<exists>new. trace s' = trace s @ new \<and> requestsWithin recursionLimit new)"
proof -
  obtain res s1 where rd: "resolveDefinition w r ps s = (res, s1)"
    by (cases "resolveDefinition w r ps s")
  from resolveDefinition_trace [OF rd] obtain new1 where
    new1: "trace s1 = trace s @ new1" "requestsWithin recursionLimit new1"
    by (auto intro: requestsWithin_none)
  show ?thesis
  proof (cases res)
    case (Rejects e)
    with rd new1 show ?thesis by (auto simp: getSymbolSnippetForNodeType.simps)
  next
    case (Returns x)
    with rd new1 show ?thesis by (auto simp: getSymbolSnippetForNodeType.simps)
  next
    case (Expands sn str reqs)
    from pos fuel obtain fuel1 where f: "fuel = Suc fuel1" "nat (recursionLimit - 1) \<le> fuel1"
      by (cases fuel) auto
    from IH [OF f(2), of reqs "Some (childParents (key sn) ps)" "setDefinitionCacheEntry sn str s1"]
    obtain out5 s5 new5 where rec:
      "getSymbolContextSnippetsRecursive fuel1 w reqs (recursionLimit - 1)
         (Some (childParents (key sn) ps)) (setDefinitionCacheEntry sn str s1) = Some (out5, s5)"
      "trace s5 = trace s1 @ new5" "requestsWithin (recursionLimit - 1) new5"
      by auto
    from rec(3) have "requestsWithin recursionLimit new5"
      by (rule requestsWithin_mono) simp
    with new1 rec(2) have "trace s5 = trace s @ (new1 @ new5) \<and> requestsWithin recursionLimit (new1 @ new5)"
      by (simp add: requestsWithin_append)
    with rd Expands f(1) rec(1) show ?thesis
      by (cases out5) (auto simp: getSymbolSnippetForNodeType.simps simp del: append_assoc)
  qed
qed

lemma resolveAll_bounded:
  assumes IH: "\<And>fuel' reqs ps' s0. nat (recursionLimit - 1) \<le> fuel' \<Longrightarrow>
           \<exists>out s'. getSymbolContextSnippetsRecursive fuel' w reqs (recursionLimit - 1) ps' s0 = Some (out, s') \<and>
             (\<exists>new. trace s' = trace s0 @ new \<and> requestsWithin (recursionLimit - 1) new)"
      and pos: "0 < recursionLimit" and fuel: "nat recursionLimit \<le> fuel"
  shows "\<exists>outs s'. resolveAll fuel w rs recursionLimit ps s = Some (outs, s') \<and>
           (\<exists>new. trace s' = trace s @ new \<and> requestsWithin recursionLimit new)"
proof (induction rs arbitrary: s)
  case Nil
  show ?case by (simp add: requestsWithin_def)
next
  case (Cons r rs)
  let ?s0 = "s\<lparr>trace := trace s @ [Requesting r recursionLimit]\<rparr>"
  from getSymbolSnippetForNodeType_bounded [OF IH pos fuel, of r ps ?s0]
  obtain out s1 new1 where one:
    "getSymbolSnippetForNodeType fuel w r recursionLimit ps ?s0 = Some (out, s1)"
    "trace s1 = trace ?s0 @ new1" "requestsWithin recursionLimit new1"
    by blast
  from Cons [of s1] obtain outs s2 new2 where rest:
    "resolveAll fuel w rs recursionLimit ps s1 = Some (outs, s2)"
    "trace s2 = trace s1 @ new2" "requestsWithin recursionLimit new2"
    by blast
  from pos have "requestsWithin recursionLimit [Requesting r recursionLimit]"
    by (simp add: requestsWithin_def)
  with one rest have "trace s2 = trace s @ ([Requesting r recursionLimit] @ new1 @ new2) \<and>
      requestsWithin recursionLimit ([Requesting r recursionLimit] @ new1 @ new2)"
    by (simp add: requestsWithin_append requestsWithin_Cons [of _ _ "new1 @ new2"])
  with one(1) rest(1) show ?case
    by (auto simp del: append_assoc append.simps)
qed

lemma recursive_bounded:
  "0 \<le> recursionLimit \<Longrightarrow> nat recursionLimit \<le> fuel \<Longrightarrow>
     \<exists>out s'. getSymbolContextSnippetsRecursive fuel w reqs recursionLimit ps s = Some (out, s') \<and>
       (\<exists>new. trace s' = trace s @ new \<and> requestsWithin recursionLimit new)"
proof (induction "nat recursionLimit" arbitrary: recursionLimit fuel reqs ps s)
  case 0
  then have "recursionLimit = 0" by simp
  then show ?case
    by (simp add: getSymbolContextSnippetsRecursive.simps requestsWithin_def)
next
  case (Suc n)
  then have pos: "0 < recursionLimit" and n: "n = nat (recursionLimit - 1)" and nn: "0 \<le> recursionLimit - 1"
    by auto
  have IH: "\<And>fuel' reqs ps' s0. nat (recursionLimit - 1) \<le> fuel' \<Longrightarrow>
           \<exists>out s'. getSymbolContextSnippetsRecursive fuel' w reqs (recursionLimit - 1) ps' s0 = Some (out, s') \<and>
             (\<exists>new. trace s' = trace s0 @ new \<and> requestsWithin (recursionLimit - 1) new)"
    using Suc.hyps(1) [OF n nn] by blast
  from resolveAll_bounded [OF IH pos Suc.prems(2), of reqs ps s]
  obtain outs s1 new1 where "resolveAll fuel w reqs recursionLimit ps s = Some (outs, s1)"
    "trace s1 = trace s @ new1" "requestsWithin recursionLimit new1"
    by blast
  with pos show ?case
    by (auto simp: getSymbolContextSnippetsRecursive.simps)
qed

text \<open>
  C2. For every list of requests and every recursion limit \<open>R \<ge> 0\<close>,
  \<^verbatim>\<open>getSymbolContextSnippetsRecursive\<close> returns: fuel \<open>R\<close> is enough for the run to
  end. Every request the run fans out is resolved under a limit between 1 and \<open>R\<close>,
  so the expansion never goes more than \<open>R\<close> levels below the first requests. With
  \<open>R = 0\<close> the result is the empty list and the state is the one before: no request
  is resolved.
\<close>

theorem getSymbolContextSnippetsRecursive_terminates:
  assumes "0 \<le> recursionLimit" and "nat recursionLimit \<le> fuel"
  shows "\<exists>out s'. getSymbolContextSnippetsRecursive fuel w reqs recursionLimit ps s = Some (out, s') \<and>
           (\<exists>new. trace s' = trace s @ new \<and> requestsWithin recursionLimit new) \<and>
           (recursionLimit = 0 \<longrightarrow> out = Inr [] \<and> s' = s)"
  using recursive_bounded [OF assms, of w reqs ps s]
  by (auto simp: getSymbolContextSnippetsRecursive.simps)

text \<open>
  In \<open>worldNested\<close> with limit 2, \<open>Foo\<close> is resolved under limit 2 and \<open>Bar\<close>, found
  in its text, under limit 1.
\<close>

theorem getSymbolContextSnippetsRecursive_terminates_witness:
  "(\<exists>out s'. getSymbolContextSnippetsRecursive 2 worldNested [requestFoo] 2 None emptyState = Some (out, s') \<and>
      (\<exists>new. trace s' = trace emptyState @ new \<and> requestsWithin 2 new)) \<and>
   map_option (\<lambda>(out, s'). filter isRequesting (trace s'))
     (getSymbolContextSnippetsRecursive 2 worldNested [requestFoo] 2 None emptyState)
     = Some [Requesting requestFoo 2, Requesting requestBarAtFoo 1] \<and>
   getSymbolContextSnippetsRecursive 0 worldNested [requestFoo] 0 None emptyState = Some (Inr [], emptyState)"
proof (intro conjI)
  show "\<exists>out s'. getSymbolContextSnippetsRecursive 2 worldNested [requestFoo] 2 None emptyState = Some (out, s') \<and>
      (\<exists>new. trace s' = trace emptyState @ new \<and> requestsWithin 2 new)"
    using getSymbolContextSnippetsRecursive_terminates [of 2 2 worldNested "[requestFoo]" None emptyState]
    by simp
  show "map_option (\<lambda>(out, s'). filter isRequesting (trace s'))
     (getSymbolContextSnippetsRecursive 2 worldNested [requestFoo] 2 None emptyState)
     = Some [Requesting requestFoo 2, Requesting requestBarAtFoo 1]"
    by code_simp
  show "getSymbolContextSnippetsRecursive 0 worldNested [requestFoo] 0 None emptyState = Some (Inr [], emptyState)"
    using getSymbolContextSnippetsRecursive_terminates [of 0 0 worldNested "[requestFoo]" None emptyState]
    by auto
qed

section \<open>Provider exceptions\<close>

text \<open>
  C3. An exception of a provider should be taken as an empty result and never reach the
  caller. No call site has a handler: the rejection passes through the getter attempt,
  the request and \<^verbatim>\<open>Promise.all\<close>. \<open>Bar\<close> alone is resolved to a snippet; together
  with \<open>Foo\<close>, whose provider throws, the whole retrieval is rejected.
\<close>

theorem getSymbolContextSnippets_rejects:
  "map_option (\<lambda>(out, s). case out of Inl e \<Rightarrow> None
                              | Inr xs \<Rightarrow> Some (map (\<lambda>sn. (symbol sn, content sn)) xs))
     (getSymbolContextSnippets 1 worldThrow [requestBar] 1 emptyState)
     = Some (Some [(''Bar'', Some ''class Foo extends Bar {}'')]) \<and>
   map_option fst (getSymbolContextSnippets 1 worldThrow [requestBar, requestFoo] 1 emptyState)
     = Some (Inl (Rejected ''no provider''))"
  by code_simp

section \<open>The second resolution of a request\<close>




lemma stateFoo_location: "DefinitionLocationCache_peek requestFoo (locationCache stateFoo) = Some [locationB]"
  by code_simp




section \<open>The bare snippet\<close>







section \<open>The order of the getters\<close>

text \<open>
  C6. The getters of a request are definition, type definition, implementation when
  its node type is \<^verbatim>\<open>property_identifier\<close> or \<^verbatim>\<open>type_identifier\<close>, and type
  definition, implementation, definition otherwise. The loop ends with the first
  attempt that yields content, whatever getters come after it, and goes on to the next
  getter of the list after an attempt without content. In the trace: when the location
  cache has nothing for the request, the location calls of the loop are the first \<open>n\<close>
  getters in their order, and the loop called fewer than all three only if it ended on
  content (or on a rejection).
\<close>

theorem getters_in_order_first_content_wins:
  "getters (nodeType r) =
     (if nodeType r = ''property_identifier'' \<or> nodeType r = ''type_identifier''
      then [Definition, TypeDefinition, Implementation]
      else [TypeDefinition, Implementation, Definition]) \<and>
   (\<forall>g gs previous s. yieldsContent (fst (getSnippetForLocationGetter w r ps g s)) \<longrightarrow>
      getterLoop w r ps (g # gs) previous s = getSnippetForLocationGetter w r ps g s) \<and>
   (\<forall>g gs previous s x s1. getSnippetForLocationGetter w r ps g s = (Inr x, s1) \<and> \<not> hasContent x \<longrightarrow>
      getterLoop w r ps (g # gs) previous s = getterLoop w r ps gs x s1) \<and>
   (\<forall>s out s'. DefinitionLocationCache_peek r (locationCache s) = None \<and>
      getterLoop w r ps (getters (nodeType r)) None s = (out, s') \<longrightarrow>
      (\<exists>n new. 0 < n \<and> n \<le> 3 \<and> trace s' = trace s @ new \<and>
         filter isLocationCall new =
           map (\<lambda>g. LocationCall g (req_uri r) (position r)) (take n (getters (nodeType r))) \<and>
         (n < 3 \<longrightarrow> yieldsContent out \<or> isl out)))"
proof (intro conjI allI impI)
  show "getters (nodeType r) =
     (if nodeType r = ''property_identifier'' \<or> nodeType r = ''type_identifier''
      then [Definition, TypeDefinition, Implementation]
      else [TypeDefinition, Implementation, Definition])"
    by (simp add: getters_def isPropertyOrType_def)
next
  fix g gs previous s
  assume "yieldsContent (fst (getSnippetForLocationGetter w r ps g s))"
  then show "getterLoop w r ps (g # gs) previous s = getSnippetForLocationGetter w r ps g s"
    by (cases "getSnippetForLocationGetter w r ps g s")
       (auto simp: yieldsContent_def split: sum.splits)
next
  fix g gs previous s x s1
  assume "getSnippetForLocationGetter w r ps g s = (Inr x, s1) \<and> \<not> hasContent x"
  then show "getterLoop w r ps (g # gs) previous s = getterLoop w r ps gs x s1"
    by simp
next
  fix s out s'
  assume h: "DefinitionLocationCache_peek r (locationCache s) = None \<and>
      getterLoop w r ps (getters (nodeType r)) None s = (out, s')"
  have len: "length (getters (nodeType r)) = 3" "getters (nodeType r) \<noteq> []"
    by (simp_all add: getters_def)
  from h getterLoop_calls [of r s w ps "getters (nodeType r)" None out s'] len
  show "\<exists>n new. 0 < n \<and> n \<le> 3 \<and> trace s' = trace s @ new \<and>
         filter isLocationCall new =
           map (\<lambda>g. LocationCall g (req_uri r) (position r)) (take n (getters (nodeType r))) \<and>
         (n < 3 \<longrightarrow> yieldsContent out \<or> isl out)"
    by auto
qed

theorem getters_in_order_first_content_wins_witness:
  "getters (nodeType requestFoo) = [TypeDefinition, Implementation, Definition] \<and>
   getterLoop worldFoo requestFoo None [TypeDefinition, Implementation, Definition] None emptyState =
     getSnippetForLocationGetter worldFoo requestFoo None TypeDefinition emptyState \<and>
   (\<exists>n new. 0 < n \<and> n \<le> 3 \<and>
      trace (snd (getterLoop worldFoo requestFoo None (getters (nodeType requestFoo)) None emptyState))
        = trace emptyState @ new \<and>
      filter isLocationCall new =
        map (\<lambda>g. LocationCall g (req_uri requestFoo) (position requestFoo))
          (take n (getters (nodeType requestFoo)))) \<and>
   getterLoop worldBare requestFoo None [TypeDefinition, Implementation, Definition] None emptyState =
     getterLoop worldBare requestFoo None [Implementation, Definition]
       (Some (bareSnippet requestFoo locationB))
       (snd (getSnippetForLocationGetter worldBare requestFoo None TypeDefinition emptyState))"
proof -
  let ?loop = "getterLoop worldFoo requestFoo None (getters (nodeType requestFoo)) None emptyState"
  have nt: "nodeType requestFoo \<noteq> ''property_identifier''" "nodeType requestFoo \<noteq> ''type_identifier''"
    by (simp_all add: requestFoo_def)
  have yc: "yieldsContent (fst (getSnippetForLocationGetter worldFoo requestFoo None TypeDefinition emptyState))"
    by code_simp
  have miss: "DefinitionLocationCache_peek requestFoo (locationCache emptyState) = None" by code_simp
  have loop: "?loop = (fst ?loop, snd ?loop)" by simp
  have "fst (getSnippetForLocationGetter worldBare requestFoo None TypeDefinition emptyState) =
      Inr (Some (bareSnippet requestFoo locationB))"
    by code_simp
  then have bare: "getSnippetForLocationGetter worldBare requestFoo None TypeDefinition emptyState =
      (Inr (Some (bareSnippet requestFoo locationB)),
       snd (getSnippetForLocationGetter worldBare requestFoo None TypeDefinition emptyState))"
    by (metis prod.collapse)
  have nc: "\<not> hasContent (Some (bareSnippet requestFoo locationB))"
    by code_simp
  note foo = getters_in_order_first_content_wins [of requestFoo worldFoo None]
  note bar = getters_in_order_first_content_wins [of requestFoo worldBare None]
  from foo nt have g: "getters (nodeType requestFoo) = [TypeDefinition, Implementation, Definition]"
    by simp
  from foo yc have first: "getterLoop worldFoo requestFoo None [TypeDefinition, Implementation, Definition] None emptyState =
     getSnippetForLocationGetter worldFoo requestFoo None TypeDefinition emptyState"
    by blast
  from foo miss loop have calls: "\<exists>n new. 0 < n \<and> n \<le> 3 \<and> trace (snd ?loop) = trace emptyState @ new \<and>
      filter isLocationCall new =
        map (\<lambda>g. LocationCall g (req_uri requestFoo) (position requestFoo))
          (take n (getters (nodeType requestFoo)))"
    by blast
  from bar bare nc have cont:
    "getterLoop worldBare requestFoo None [TypeDefinition, Implementation, Definition] None emptyState =
     getterLoop worldBare requestFoo None [Implementation, Definition]
       (Some (bareSnippet requestFoo locationB))
       (snd (getSnippetForLocationGetter worldBare requestFoo None TypeDefinition emptyState))"
    by blast
  from g first calls cont show ?thesis by blast
qed

section \<open>The location cache in a getter attempt\<close>

text \<open>
  C7, as the claim has it: a non-empty answer of the provider is stored in the location
  cache. Not every one is: the provider answers with a definition here, but its hover
  text and source text are both unhelpful, and after the attempt the cache holds
  nothing for the request.
\<close>

theorem nonempty_locations_not_stored:
  "DefinitionLocationCache_peek requestFoo (locationCache emptyState) = None \<and>
   locationProvider worldBare TypeDefinition (req_uri requestFoo) (position requestFoo) = Inr [locationB] \<and>
   DefinitionLocationCache_peek requestFoo
     (locationCache (snd (getSnippetForLocationGetter worldBare requestFoo None TypeDefinition emptyState)))
     = None"
  by code_simp

text \<open>
  C7, amended. A getter attempt looks in the location cache under the document URI
  of the request and the key made of its position, node type and symbol name. On a hit
  it calls no location provider and works with the cached locations; on a miss it calls
  the provider once. An empty answer gives no snippet and leaves no entry for the
  request. A non-empty answer is stored when the attempt then extracts the text of a
  definition that was not cached and the text has content.
\<close>

theorem getSnippetForLocationGetter_location_cache:
  assumes run: "getSnippetForLocationGetter w r ps g s = (out, s')"
  shows
  "DefinitionLocationCache_peek r (locationCache s) =
      (case lru_peek (req_uri r) (locationCache s) of
         None \<Rightarrow> None
       | Some documentCache \<Rightarrow>
           lru_peek (show_nat (line (position r)) @ '':'' @ show_nat (character (position r)) @
                     '':'' @ nodeType r @ '':'' @ symbolName r) documentCache) \<and>
   (\<exists>new. trace s' = trace s @ new \<and>
      filter isLocationCall new =
        (case DefinitionLocationCache_peek r (locationCache s) of
           Some locs \<Rightarrow> []
         | None \<Rightarrow> [LocationCall g (req_uri r) (position r)])) \<and>
   (\<forall>locs. DefinitionLocationCache_peek r (locationCache s) = Some locs \<longrightarrow>
      (out, s') = snippetForLocations w r ps locs
        (s\<lparr>locationCache := snd (DefinitionLocationCache_get r (locationCache s))\<rparr>)) \<and>
   (DefinitionLocationCache_peek r (locationCache s) = None \<and>
    locationProvider w g (req_uri r) (position r) = Inr []
      \<longrightarrow> out = Inr None \<and> DefinitionLocationCache_peek r (locationCache s') = None) \<and>
   (\<forall>l ls. DefinitionLocationCache_peek r (locationCache s) = None \<and>
      locationProvider w g (req_uri r) (position r) = Inr (l # ls) \<and>
      DefinitionCache_peek l (definitionCache s) = None \<and> yieldsContent out
      \<longrightarrow> DefinitionLocationCache_peek r (locationCache s') = Some (l # ls))"
proof (intro conjI allI impI)
  show "DefinitionLocationCache_peek r (locationCache s) =
      (case lru_peek (req_uri r) (locationCache s) of
         None \<Rightarrow> None
       | Some documentCache \<Rightarrow>
           lru_peek (show_nat (line (position r)) @ '':'' @ show_nat (character (position r)) @
                     '':'' @ nodeType r @ '':'' @ symbolName r) documentCache)"
    by (simp add: DefinitionLocationCache_peek_def toLocationCacheKey_def split: option.splits)
next
  show "\<exists>new. trace s' = trace s @ new \<and>
      filter isLocationCall new =
        (case DefinitionLocationCache_peek r (locationCache s) of
           Some locs \<Rightarrow> []
         | None \<Rightarrow> [LocationCall g (req_uri r) (position r)])"
    using getSnippetForLocationGetter_trace [OF run] by blast
next
  fix locs
  assume "DefinitionLocationCache_peek r (locationCache s) = Some locs"
  with run show "(out, s') = snippetForLocations w r ps locs
        (s\<lparr>locationCache := snd (DefinitionLocationCache_get r (locationCache s))\<rparr>)"
    by (simp add: getSnippetForLocationGetter_def fetchDefinitionLocations_hit)
next
  assume h: "DefinitionLocationCache_peek r (locationCache s) = None \<and>
    locationProvider w g (req_uri r) (position r) = Inr []"
  with run show "out = Inr None"
    by (auto simp: getSnippetForLocationGetter_def fetchDefinitionLocations_miss snippetForLocations_empty)
  from run h show "DefinitionLocationCache_peek r (locationCache s') = None"
    by (auto simp: getSnippetForLocationGetter_def fetchDefinitionLocations_miss snippetForLocations_empty
          DefinitionLocationCache_peek_delete_same)
next
  fix l ls
  assume h: "DefinitionLocationCache_peek r (locationCache s) = None \<and>
      locationProvider w g (req_uri r) (position r) = Inr (l # ls) \<and>
      DefinitionCache_peek l (definitionCache s) = None \<and> yieldsContent out"
  with run have "snippetForLocations w r ps (l # ls)
      (s\<lparr>locationCache := snd (DefinitionLocationCache_get r (locationCache s)),
         trace := trace s @ [LocationCall g (req_uri r) (position r)]\<rparr>) = (out, s')"
    by (simp add: getSnippetForLocationGetter_def fetchDefinitionLocations_miss)
  from snippetForLocations_stores [OF this] h
  show "DefinitionLocationCache_peek r (locationCache s') = Some (l # ls)" by simp
qed

theorem getSnippetForLocationGetter_location_cache_witness:
  "yieldsContent (fst (getSnippetForLocationGetter worldFoo requestFoo None TypeDefinition emptyState)) \<and>
   DefinitionLocationCache_peek requestFoo
     (locationCache (snd (getSnippetForLocationGetter worldFoo requestFoo None TypeDefinition emptyState)))
     = Some [locationB] \<and>
   (\<exists>new. trace (snd (getSnippetForLocationGetter worldFoo requestFoo None TypeDefinition emptyState))
            = trace emptyState @ new \<and>
          filter isLocationCall new = [LocationCall TypeDefinition ''file:///a.ts'' \<lparr>line = 1, character = 2\<rparr>]) \<and>
   (\<exists>new. trace (snd (getSnippetForLocationGetter worldFoo requestFoo None Implementation stateFoo))
            = trace stateFoo @ new \<and> filter isLocationCall new = []) \<and>
   fst (getSnippetForLocationGetter worldEmpty requestFoo None TypeDefinition emptyState) = Inr None \<and>
   DefinitionLocationCache_peek requestFoo
     (locationCache (snd (getSnippetForLocationGetter worldEmpty requestFoo None TypeDefinition emptyState)))
     = None"
proof -
  let ?run = "getSnippetForLocationGetter worldFoo requestFoo None TypeDefinition emptyState"
  let ?hit = "getSnippetForLocationGetter worldFoo requestFoo None Implementation stateFoo"
  let ?empty = "getSnippetForLocationGetter worldEmpty requestFoo None TypeDefinition emptyState"
  have run: "?run = (fst ?run, snd ?run)" and hit: "?hit = (fst ?hit, snd ?hit)"
    and empty: "?empty = (fst ?empty, snd ?empty)" by simp_all
  have miss: "DefinitionLocationCache_peek requestFoo (locationCache emptyState) = None" by code_simp
  have prov: "locationProvider worldFoo TypeDefinition (req_uri requestFoo) (position requestFoo) = Inr [locationB]"
    by (simp add: worldFoo_def)
  have none: "locationProvider worldEmpty TypeDefinition (req_uri requestFoo) (position requestFoo) = Inr []"
    by (simp add: worldEmpty_def)
  have dm: "DefinitionCache_peek locationB (definitionCache emptyState) = None" by code_simp
  have yc: "yieldsContent (fst ?run)" by code_simp
  have u: "req_uri requestFoo = ''file:///a.ts''" "position requestFoo = \<lparr>line = 1, character = 2\<rparr>"
    by (simp_all add: requestFoo_def)
  from getSnippetForLocationGetter_location_cache [OF run] miss prov dm yc u
  have a: "DefinitionLocationCache_peek requestFoo (locationCache (snd ?run)) = Some [locationB] \<and>
     (\<exists>new. trace (snd ?run) = trace emptyState @ new \<and>
          filter isLocationCall new = [LocationCall TypeDefinition ''file:///a.ts'' \<lparr>line = 1, character = 2\<rparr>])"
    by simp
  from getSnippetForLocationGetter_location_cache [OF hit, THEN conjunct2, THEN conjunct1]
  have b: "\<exists>new. trace (snd ?hit) = trace stateFoo @ new \<and> filter isLocationCall new = []"
    by (simp add: stateFoo_location)
  from getSnippetForLocationGetter_location_cache [OF empty] miss none
  have c: "fst ?empty = Inr None \<and> DefinitionLocationCache_peek requestFoo (locationCache (snd ?empty)) = None"
    by simp
  from yc a b c show ?thesis by simp
qed

section \<open>Parent linkage\<close>



lemma linkParent_peekPath:
  "DefinitionCache_peekPath p' (definitionCache (linkParent k p s)) =
     DefinitionCache_peekPath p' (definitionCache s)"
  using DefinitionCache_peekPath_getPath [of p' p "definitionCache s"]
  by (auto simp: linkParent_def Let_def split: prod.splits option.splits)


lemma foldl_linkParent_peekPath:
  "DefinitionCache_peekPath p' (definitionCache (foldl (\<lambda>s1 p. linkParent k p s1) s ps)) =
     DefinitionCache_peekPath p' (definitionCache s)"
  by (induction ps arbitrary: s) (simp_all add: linkParent_peekPath)






section \<open>Assembling the result\<close>

lemma relatedDefinitions_eq:
  "\<exists>c'. relatedDefinitions sn ks c =
          (map (\<lambda>k. if k = key sn then None else map_option entry_content (DefinitionCache_peekPath k c)) ks, c') \<and>
        (\<forall>p. DefinitionCache_peekPath p c' = DefinitionCache_peekPath p c)"
proof (induction ks arbitrary: c)
  case Nil
  show ?case by simp
next
  case (Cons k ks)
  obtain x c1 where one: "relatedDefinition sn k c = (x, c1)"
    by (cases "relatedDefinition sn k c")
  then have x: "x = (if k = key sn then None else map_option entry_content (DefinitionCache_peekPath k c))"
    and c1: "\<forall>p. DefinitionCache_peekPath p c1 = DefinitionCache_peekPath p c"
    using DefinitionCache_getPath_fst [of k c] DefinitionCache_peekPath_getPath [of _ k c]
    by (auto simp: relatedDefinition_def split: if_splits prod.splits)
  from Cons [of c1] obtain c2 where
    "relatedDefinitions sn ks c1 =
       (map (\<lambda>k. if k = key sn then None else map_option entry_content (DefinitionCache_peekPath k c1)) ks, c2)"
    "\<forall>p. DefinitionCache_peekPath p c2 = DefinitionCache_peekPath p c1"
    by blast
  with one x c1 show ?case by simp
qed

lemma definedOnly_related:
  "definedOnly (map (\<lambda>k. if k = key sn then None else map_option entry_content (DefinitionCache_peekPath k c)) ks) =
     map (\<lambda>k. case DefinitionCache_peekPath k c of None \<Rightarrow> [] | Some e \<Rightarrow> entry_content e)
       (filter (\<lambda>k. k \<noteq> key sn \<and> DefinitionCache_peekPath k c \<noteq> None) ks)"
  by (induction ks) (auto simp: definedOnly_def)

lemma withRelatedSnippets_eq:
  "\<exists>s'. withRelatedSnippets sn s = (assembled s sn, s') \<and> sets s' = sets s \<and>
         (\<forall>p. DefinitionCache_peekPath p (definitionCache s') = DefinitionCache_peekPath p (definitionCache s))"
proof (cases "relatedDefinitionKeys sn")
  case None
  then show ?thesis by (simp add: withRelatedSnippets_def assembled_def)
next
  case (Some a)
  from relatedDefinitions_eq [of sn "store_get a (sets s)" "definitionCache s"]
  obtain c' where "relatedDefinitions sn (store_get a (sets s)) (definitionCache s) =
          (map (\<lambda>k. if k = key sn then None else map_option entry_content (DefinitionCache_peekPath k (definitionCache s)))
             (store_get a (sets s)), c')"
     "\<forall>p. DefinitionCache_peekPath p c' = DefinitionCache_peekPath p (definitionCache s)"
    by blast
  with Some show ?thesis
    by (simp add: withRelatedSnippets_def assembled_def assembledContent_def definedOnly_related)
qed

lemma assembled_cong:
  "sets s' = sets s \<Longrightarrow>
   \<forall>p. DefinitionCache_peekPath p (definitionCache s') = DefinitionCache_peekPath p (definitionCache s) \<Longrightarrow>
   assembled s' sn = assembled s sn"
  by (simp add: assembled_def assembledContent_def split: option.splits)

lemma assemble_eq:
  "\<exists>s'. assemble xs s = (map (assembled s) xs, s') \<and> sets s' = sets s \<and>
         (\<forall>p. DefinitionCache_peekPath p (definitionCache s') = DefinitionCache_peekPath p (definitionCache s))"
proof (induction xs arbitrary: s)
  case Nil
  show ?case by simp
next
  case (Cons x xs)
  from withRelatedSnippets_eq [of x s] obtain s1 where s1:
    "withRelatedSnippets x s = (assembled s x, s1)" "sets s1 = sets s"
    "\<forall>p. DefinitionCache_peekPath p (definitionCache s1) = DefinitionCache_peekPath p (definitionCache s)"
    by blast
  from Cons [of s1] obtain s2 where s2:
    "assemble xs s1 = (map (assembled s1) xs, s2)" "sets s2 = sets s1"
    "\<forall>p. DefinitionCache_peekPath p (definitionCache s2) = DefinitionCache_peekPath p (definitionCache s1)"
    by blast
  have "map (assembled s1) xs = map (assembled s) xs"
    using assembled_cong [OF s1(2) s1(3)] by simp
  with s1 s2 show ?case by simp
qed

lemma assembledContent_self:
  assumes "\<forall>k \<in> set ks. k = key sn \<or> DefinitionCache_peekPath k c = None"
  shows "assembledContent sn ks c = contentString sn"
proof -
  from assms have "filter (\<lambda>k. k \<noteq> key sn \<and> DefinitionCache_peekPath k c \<noteq> None) ks = []"
    by (auto simp: filter_empty_conv)
  then show ?thesis by (simp add: assembledContent_def)
qed

lemma assembledContent_without_self:
  "assembledContent sn ks c = assembledContent sn (filter (\<lambda>k. k \<noteq> key sn) ks) c"
proof -
  have "filter (\<lambda>k. k \<noteq> key sn \<and> DefinitionCache_peekPath k c \<noteq> None) (filter (\<lambda>k. k \<noteq> key sn) ks) =
        filter (\<lambda>k. k \<noteq> key sn \<and> DefinitionCache_peekPath k c \<noteq> None) ks"
    by (induction ks) auto
  then show ?thesis by (simp add: assembledContent_def)
qed

lemma run_nested:
  "getSymbolContextSnippetsRecursive 2 worldNested [requestFoo] 2 None emptyState = Some (Inr resultNested, stateNested)"
proof -
  have "(case getSymbolContextSnippetsRecursive 2 worldNested [requestFoo] 2 None emptyState of
           Some (Inr xs, s) \<Rightarrow> True | _ \<Rightarrow> False)"
    by code_simp
  then show ?thesis
    by (auto simp: resultNested_def stateNested_def split: option.splits sum.splits prod.splits)
qed

text \<open>
  C9. \<^verbatim>\<open>getSymbolContextSnippets\<close> returns the snippets of the recursive engine, each
  snippet with a set of related keys having as content the contents of the related
  definitions found in the definition cache, its own key left out, followed by its own
  content, joined by newlines; a snippet without such a set is returned as it is. The
  own key in the set changes nothing: the assembled content is the one of the set
  without it, and when every related key is the snippet's own or leads to no entry, it
  is the own content, once.
\<close>

theorem getSymbolContextSnippets_assembles:
  assumes "getSymbolContextSnippetsRecursive fuel w reqs recursionLimit None s = Some (Inr result, s1)"
  shows "(\<exists>s2. getSymbolContextSnippets fuel w reqs recursionLimit s =
            Some (Inr (map (\<lambda>snippet.
               case relatedDefinitionKeys snippet of
                 None \<Rightarrow> snippet
               | Some a \<Rightarrow> snippet\<lparr>content :=
                   Some (assembledContent snippet (store_get a (sets s1)) (definitionCache s1))\<rparr>) result), s2)) \<and>
         (\<forall>snippet ks. assembledContent snippet ks (definitionCache s1) =
            assembledContent snippet (filter (\<lambda>k. k \<noteq> key snippet) ks) (definitionCache s1)) \<and>
         (\<forall>snippet ks. (\<forall>k \<in> set ks. k = key snippet \<or> DefinitionCache_peekPath k (definitionCache s1) = None)
            \<longrightarrow> assembledContent snippet ks (definitionCache s1) = contentString snippet)"
proof -
  from assemble_eq [of result s1] obtain s2 where "assemble result s1 = (map (assembled s1) result, s2)"
    by blast
  with assms have "getSymbolContextSnippets fuel w reqs recursionLimit s =
      Some (Inr (map (assembled s1) result), s2)"
    by (simp add: getSymbolContextSnippets_def)
  moreover have "assembled s1 = (\<lambda>snippet.
               case relatedDefinitionKeys snippet of
                 None \<Rightarrow> snippet
               | Some a \<Rightarrow> snippet\<lparr>content :=
                   Some (assembledContent snippet (store_get a (sets s1)) (definitionCache s1))\<rparr>)"
    by (rule ext) (simp add: assembled_def)
  ultimately show ?thesis
    using assembledContent_self assembledContent_without_self by auto
qed

text \<open>
  In \<open>worldNested\<close> the snippet of \<open>Foo\<close> has the key of \<open>Bar\<close> as related key, and
  its content becomes the text of \<open>Bar\<close>, a newline, and its own text.
\<close>

theorem getSymbolContextSnippets_assembles_witness:
  "(\<exists>s2. getSymbolContextSnippets 2 worldNested [requestFoo] 2 emptyState =
            Some (Inr (map (\<lambda>snippet.
               case relatedDefinitionKeys snippet of
                 None \<Rightarrow> snippet
               | Some a \<Rightarrow> snippet\<lparr>content :=
                   Some (assembledContent snippet (store_get a (sets stateNested)) (definitionCache stateNested))\<rparr>)
              resultNested), s2)) \<and>
   map (\<lambda>snippet. (relatedDefinitionKeys snippet, content snippet)) resultNested
     = [(Some 0, Some ''class Foo extends Bar {}'')] \<and>
   store_get 0 (sets stateNested) = [''file:///c.ts::7:2''] \<and>
   map_option (\<lambda>(out, s). case out of Inl e \<Rightarrow> [] | Inr xs \<Rightarrow> map content xs)
     (getSymbolContextSnippets 2 worldNested [requestFoo] 2 emptyState)
     = Some [Some (''class Bar { x: number }'' @ newline @ ''class Foo extends Bar {}'')] \<and>
   assembledContent ((bareSnippet requestFoo locationB)\<lparr>content := Some ''class Foo extends Bar {}''\<rparr>)
     [key (bareSnippet requestFoo locationB)] (definitionCache stateNested)
     = ''class Foo extends Bar {}''"
proof (intro conjI)
  show "assembledContent ((bareSnippet requestFoo locationB)\<lparr>content := Some ''class Foo extends Bar {}''\<rparr>)
     [key (bareSnippet requestFoo locationB)] (definitionCache stateNested)
     = ''class Foo extends Bar {}''"
    using getSymbolContextSnippets_assembles [OF run_nested, THEN conjunct2, THEN conjunct2, rule_format,
      of "[key (bareSnippet requestFoo locationB)]"
         "(bareSnippet requestFoo locationB)\<lparr>content := Some ''class Foo extends Bar {}''\<rparr>"]
    by (simp add: contentString_def)
  show "\<exists>s2. getSymbolContextSnippets 2 worldNested [requestFoo] 2 emptyState =
            Some (Inr (map (\<lambda>snippet.
               case relatedDefinitionKeys snippet of
                 None \<Rightarrow> snippet
               | Some a \<Rightarrow> snippet\<lparr>content :=
                   Some (assembledContent snippet (store_get a (sets stateNested)) (definitionCache stateNested))\<rparr>)
              resultNested), s2)"
    using getSymbolContextSnippets_assembles [OF run_nested] by blast
  show "map (\<lambda>snippet. (relatedDefinitionKeys snippet, content snippet)) resultNested
     = [(Some 0, Some ''class Foo extends Bar {}'')]"
    by code_simp
  show "store_get 0 (sets stateNested) = [''file:///c.ts::7:2'']"
    by code_simp
  show "map_option (\<lambda>(out, s). case out of Inl e \<Rightarrow> [] | Inr xs \<Rightarrow> map content xs)
     (getSymbolContextSnippets 2 worldNested [requestFoo] 2 emptyState)
     = Some [Some (''class Bar { x: number }'' @ newline @ ''class Foo extends Bar {}'')]"
    by code_simp
qed

section \<open>The first location\<close>









lemma lruRel_Nil [simp]: "lruRel R [] []"
  by (simp add: lruRel_def)

lemma lruRel_Cons [simp]:
  "lruRel R ((k, v) # c) ((k', v') # c') = (k = k' \<and> R v v' \<and> lruRel R c c')"
  by (simp add: lruRel_def)






































end
